theory Spec2Isabelle
  imports Complex_Main
begin

section \<open>Strings and numbers of the host language\<close>

text \<open>
  Text is a \<^typ>\<open>string\<close>; the TypeScript sources only ever compare, slice and
  concatenate it. An optional value (\<open>undefined\<close> in the source) is \<open>None\<close>.
  The truthiness test \<open>if (s)\<close> on an optional string holds for a present,
  non-empty string only.
\<close>

fun truthy :: "string option \<Rightarrow> bool" where
  "truthy None = False"
| "truthy (Some []) = False"
| "truthy (Some (c # cs)) = True"

definition startsWith :: "string \<Rightarrow> string \<Rightarrow> bool" where
  "startsWith s p = (take (length p) s = p)"

definition digit_char :: "nat \<Rightarrow> char" where
  "digit_char d = char_of (48 + d)"

text \<open>Decimal printing of a non-negative integer, as a template literal does.\<close>

fun string_of_nat :: "nat \<Rightarrow> string" where
  "string_of_nat n =
     (if n < 10 then [digit_char n]
      else string_of_nat (n div 10) @ [digit_char (n mod 10)])"

declare string_of_nat.simps [simp del]

section \<open>providers/types.ts and config/types.ts\<close>

datatype Capability = Text | Image | Audio | Video | Embedding

fun capability_str :: "Capability \<Rightarrow> string" where
  "capability_str Text = ''text''"
| "capability_str Image = ''image''"
| "capability_str Audio = ''audio''"
| "capability_str Video = ''video''"
| "capability_str Embedding = ''embedding''"

text \<open>\<open>provider_id\<close> and \<open>provider_name\<close> are the fields \<open>id\<close> and \<open>name\<close> of the source.\<close>

record ProviderMeta =
  provider_id :: string
  provider_name :: string
  version :: string
  capabilities :: "Capability list"

text \<open>
  The \<open>models\<close> block of a provider configuration: one optional model per key
  (\<open>text\<close>, \<open>image\<close>, \<open>audio\<close>, \<open>tts\<close>, \<open>video\<close>). The numbers \<open>timeout\<close> and \<open>maxRetries\<close> are
  integers.
\<close>

record Models =
  text_model :: "string option"
  image_model :: "string option"
  audio_model :: "string option"
  tts_model :: "string option"
  video_model :: "string option"

record ProviderConfig =
  apiKey :: string
  baseUrl :: "string option"
  timeout :: "int option"
  maxRetries :: "int option"
  organization :: "string option"
  projectId :: "string option"
  region :: "string option"
  models :: "Models option"

section \<open>utils/errors.ts\<close>

text \<open>
  \<open>ProviderError message provider statusCode\<close> is the class of the source. \<open>TypeError\<close>
  is the runtime's error on reading a property of \<open>undefined\<close>; \<open>OtherError\<close> is
  any error raised by the platform's \<open>fetch\<close> (network failure, timeout).
\<close>

datatype error =
    ProviderError string string "nat option"
  | TypeError string
  | OtherError string

section \<open>providers/base.ts: BaseProvider\<close>

text \<open>
  An adapter instance: the abstract members \<open>meta\<close> and \<open>getModels\<close> that each
  subclass supplies, and the two fields of the base class. \<open>config\<close> is unassigned
  (\<open>None\<close>) until \<open>initialize\<close> runs.
\<close>

record provider =
  meta :: ProviderMeta
  getModels :: "Capability \<Rightarrow> string list"
  config :: "ProviderConfig option"
  initialized :: bool

definition initialize :: "provider \<Rightarrow> ProviderConfig \<Rightarrow> provider" where
  "initialize p c = p\<lparr>config := Some c, initialized := True\<rparr>"

definition supports :: "provider \<Rightarrow> Capability \<Rightarrow> bool" where
  "supports p capability = (capability \<in> set (capabilities (meta p)))"

definition ensureInitialized :: "provider \<Rightarrow> error + unit" where
  "ensureInitialized p =
     (if \<not> initialized p
      then Inl (ProviderError (provider_name (meta p) @ '' provider not initialized'')
                  (provider_id (meta p)) None)
      else Inr ())"

definition ensureCapability :: "provider \<Rightarrow> Capability \<Rightarrow> error + unit" where
  "ensureCapability p capability =
     (if \<not> supports p capability
      then Inl (ProviderError
                  (provider_name (meta p) @ '' does not support '' @
                   capability_str capability @ '' generation'')
                  (provider_id (meta p)) None)
      else Inr ())"

text \<open>
  \<open>configModels[modelKey]\<close> with \<open>modelKey = capability === "embedding" ? "text" : capability\<close>.
\<close>

fun configModel :: "Models \<Rightarrow> Capability \<Rightarrow> string option" where
  "configModel cm Text = text_model cm"
| "configModel cm Image = image_model cm"
| "configModel cm Audio = audio_model cm"
| "configModel cm Video = video_model cm"
| "configModel cm Embedding = text_model cm"

definition getModel :: "provider \<Rightarrow> Capability \<Rightarrow> string option \<Rightarrow> error + string" where
  "getModel p capability requestModel =
     (if truthy requestModel then Inr (the requestModel)
      else case config p of
        None \<Rightarrow> Inl (TypeError ''undefined is not an object (this.config.models)'')
      | Some cfg \<Rightarrow>
          (if (case models cfg of None \<Rightarrow> False
               | Some cm \<Rightarrow> truthy (configModel cm capability))
           then Inr (the (configModel (the (models cfg)) capability))
           else case getModels p capability of
             m # ms \<Rightarrow> Inr m
           | [] \<Rightarrow> Inl (ProviderError
                        (''No model available for '' @ capability_str capability)
                        (provider_id (meta p)) None)))"

text \<open>
  \<open>fetchWithRetry\<close>. The platform's \<open>fetch\<close> is the environment: \<open>fetch i\<close> is what
  the call issued by loop iteration \<open>i\<close> (0-based) does, either rejecting with an error
  or resolving to a response. Reading the body of a response (\<open>response.text()\<close>) may
  itself reject.
\<close>

record Response =
  ok :: bool
  status :: nat
  body_text :: "error + string"

datatype fetch_result = Resolved Response | Rejected error

text \<open>
  The body of the \<open>try\<close> block of one iteration. The options object of the call reads
  \<open>this.config.timeout\<close>, which raises inside the \<open>try\<close> when no config was stored.
\<close>

definition attempt :: "provider \<Rightarrow> (nat \<Rightarrow> fetch_result) \<Rightarrow> nat \<Rightarrow> error + Response" where
  "attempt p fetch i =
     (case config p of
        None \<Rightarrow> Inl (TypeError ''undefined is not an object (this.config.timeout)'')
      | Some cfg \<Rightarrow>
          (case fetch i of
             Rejected e \<Rightarrow> Inl e
           | Resolved response \<Rightarrow>
               (if \<not> ok response then
                  (case body_text response of
                     Inl e \<Rightarrow> Inl e
                   | Inr err \<Rightarrow>
                       Inl (ProviderError
                              (''API error: '' @ string_of_nat (status response) @ '' - '' @ err)
                              (provider_id (meta p)) (Some (status response))))
                else Inr response)))"

text \<open>
  What a run of the executor leaves behind besides its result: how many iterations of
  the loop ran (each is one attempt), and the durations in milliseconds handed to
  \<open>Bun.sleep\<close>, in order.
\<close>

record retry_log =
  attempts :: nat
  sleeps :: "int list"

text \<open>The \<open>for\<close> loop, entered at iteration \<open>i\<close>, followed by the final \<open>throw\<close>.\<close>

function retry_loop ::
  "provider \<Rightarrow> (nat \<Rightarrow> fetch_result) \<Rightarrow> int \<Rightarrow> nat \<Rightarrow> error option \<Rightarrow> int list
     \<Rightarrow> (error + Response) \<times> retry_log" where
  "retry_loop p fetch maxR i lastError sl =
     (if int i < maxR then
        (case attempt p fetch i of
           Inr response \<Rightarrow> (Inr response, \<lparr>attempts = Suc i, sleeps = sl\<rparr>)
         | Inl e \<Rightarrow>
             retry_loop p fetch maxR (Suc i) (Some e)
               (if int i < maxR - 1 then sl @ [1000 * (int i + 1)] else sl))
      else
        (Inl (case lastError of
                Some e \<Rightarrow> e
              | None \<Rightarrow> ProviderError ''Unknown error'' (provider_id (meta p)) None),
         \<lparr>attempts = i, sleeps = sl\<rparr>))"
  by pat_completeness auto
termination
  by (relation "measure (\<lambda>(p, fetch, maxR, i, lastError, sl). nat (maxR - int i))") auto

declare retry_loop.simps [simp del]

text \<open>\<open>retries ?? this.config.maxRetries ?? 3\<close>\<close>

definition resolveMaxRetries :: "provider \<Rightarrow> int option \<Rightarrow> error + int" where
  "resolveMaxRetries p retries =
     (case retries of
        Some n \<Rightarrow> Inr n
      | None \<Rightarrow>
          (case config p of
             None \<Rightarrow> Inl (TypeError ''undefined is not an object (this.config.maxRetries)'')
           | Some cfg \<Rightarrow> Inr (case maxRetries cfg of Some n \<Rightarrow> n | None \<Rightarrow> 3)))"

definition fetchWithRetry ::
  "provider \<Rightarrow> (nat \<Rightarrow> fetch_result) \<Rightarrow> int option \<Rightarrow> (error + Response) \<times> retry_log" where
  "fetchWithRetry p fetch retries =
     (case resolveMaxRetries p retries of
        Inl e \<Rightarrow> (Inl e, \<lparr>attempts = 0, sleeps = []\<rparr>)
      | Inr maxR \<Rightarrow> retry_loop p fetch maxR 0 None [])"

section \<open>The three adapters: what each subclass supplies\<close>

text \<open>A freshly constructed adapter: no config stored, \<open>initialized = false\<close>.\<close>

definition new_provider :: "ProviderMeta \<Rightarrow> (Capability \<Rightarrow> string list) \<Rightarrow> provider" where
  "new_provider m g = \<lparr>meta = m, getModels = g, config = None, initialized = False\<rparr>"

fun openai_getModels :: "Capability \<Rightarrow> string list" where
  "openai_getModels Text = [''gpt-4o'', ''gpt-4o-mini'', ''gpt-4-turbo'', ''gpt-3.5-turbo'']"
| "openai_getModels Image = [''dall-e-3'', ''dall-e-2'']"
| "openai_getModels Audio = [''tts-1'', ''tts-1-hd'', ''whisper-1'']"
| "openai_getModels Video = []"
| "openai_getModels Embedding = [''text-embedding-3-large'', ''text-embedding-3-small'']"

definition OpenAIProvider :: "unit \<Rightarrow> provider" where
  "OpenAIProvider u =
     new_provider
       \<lparr>provider_id = ''openai'', provider_name = ''OpenAI'', version = ''1.0.0'',
        capabilities = [Text, Image, Audio, Embedding]\<rparr>
       openai_getModels"

fun google_getModels :: "Capability \<Rightarrow> string list" where
  "google_getModels Text = [''gemini-1.5-pro'', ''gemini-1.5-flash'', ''gemini-pro'']"
| "google_getModels Image = [''imagen-3.0-generate-001'']"
| "google_getModels Audio = []"
| "google_getModels Video = [''veo-001'']"
| "google_getModels Embedding = [''text-embedding-004'']"

definition GoogleProvider :: "unit \<Rightarrow> provider" where
  "GoogleProvider u =
     new_provider
       \<lparr>provider_id = ''google'', provider_name = ''Google AI'', version = ''1.0.0'',
        capabilities = [Text, Image, Video, Embedding]\<rparr>
       google_getModels"

fun openrouter_getModels :: "Capability \<Rightarrow> string list" where
  "openrouter_getModels Text =
     [''anthropic/claude-sonnet-4'', ''anthropic/claude-4.5-haiku'', ''openai/gpt-5.1'',
      ''openai/gpt-5'', ''openai/gpt-5-mini'', ''google/gemini-3-pro-preview'',
      ''google/gemini-3-flash-preview'', ''google/gemini-2.5-flash'',
      ''meta-llama/llama-3.1-405b-instruct'', ''meta-llama/llama-3.1-70b-instruct'',
      ''mistralai/mistral-large'', ''deepseek/deepseek-chat'']"
| "openrouter_getModels Image =
     [''openai/dall-e-3'', ''google/gemini-2.5-flash-image'', ''stability/stable-diffusion-xl'']"
| "openrouter_getModels Audio = []"
| "openrouter_getModels Video = []"
| "openrouter_getModels Embedding =
     [''openai/text-embedding-3-large'', ''openai/text-embedding-3-small'']"

definition OpenRouterProvider :: "unit \<Rightarrow> provider" where
  "OpenRouterProvider u =
     new_provider
       \<lparr>provider_id = ''openrouter'', provider_name = ''OpenRouter'', version = ''1.0.0'',
        capabilities = [Text, Image]\<rparr>
       openrouter_getModels"

section \<open>The SSE decoders of the adapters\<close>

text \<open>
  A parsed JSON value. The platform's \<open>JSON.parse\<close> is a parameter of the decoders:
  \<open>parse s\<close> is the value of the text \<open>s\<close>, or \<open>None\<close> when \<open>JSON.parse\<close> raises. An
  object is the list of its properties, each key once. A JavaScript value that may be
  \<open>undefined\<close> is an optional value.
\<close>

datatype json =
    JNull
  | JBool bool
  | JNumber real
  | JString string
  | JArray "json list"
  | JObject "(string \<times> json) list"

text \<open>\<open>if (v)\<close>: \<open>undefined\<close>, \<open>null\<close>, \<open>false\<close>, \<open>0\<close> and \<open>""\<close> are falsy.\<close>

fun js_truthy :: "json option \<Rightarrow> bool" where
  "js_truthy None = False"
| "js_truthy (Some JNull) = False"
| "js_truthy (Some (JBool b)) = b"
| "js_truthy (Some (JNumber x)) = (x \<noteq> 0)"
| "js_truthy (Some (JString s)) = (s \<noteq> [])"
| "js_truthy (Some (JArray xs)) = True"
| "js_truthy (Some (JObject kvs)) = True"

text \<open>
  \<open>v.name\<close> on a value that is neither \<open>null\<close> nor \<open>undefined\<close>, for the property names the
  decoders read (choices, delta, content, candidates, parts, text): only an object can
  hold one. \<open>v[0]\<close> is the first element of an array, the first character of a string,
  the property \<open>"0"\<close> of an object.
\<close>

fun get_prop :: "string \<Rightarrow> json \<Rightarrow> json option" where
  "get_prop name (JObject kvs) = map_of kvs name"
| "get_prop name v = None"

fun get_index0 :: "json \<Rightarrow> json option" where
  "get_index0 (JArray []) = None"
| "get_index0 (JArray (x # xs)) = Some x"
| "get_index0 (JString []) = None"
| "get_index0 (JString (c # cs)) = Some (JString [c])"
| "get_index0 (JObject kvs) = map_of kvs ''0''"
| "get_index0 v = None"

text \<open>Optional chaining \<open>v?.\<close>: \<open>undefined\<close> when \<open>v\<close> is \<open>null\<close> or \<open>undefined\<close>.\<close>

fun opt_chain :: "(json \<Rightarrow> json option) \<Rightarrow> json option \<Rightarrow> json option" where
  "opt_chain f None = None"
| "opt_chain f (Some JNull) = None"
| "opt_chain f (Some v) = f v"

text \<open>
  \<open>json.choices?.[0]?.delta?.content\<close>. The first access is a plain one: it raises on
  \<open>null\<close>.
\<close>

definition delta_content :: "json \<Rightarrow> error + json option" where
  "delta_content j =
     (if j = JNull then Inl (TypeError ''null is not an object (json.choices)'')
      else Inr (opt_chain (get_prop ''content'')
                 (opt_chain (get_prop ''delta'')
                   (opt_chain get_index0 (get_prop ''choices'' j)))))"

text \<open>\<open>json.candidates?.[0]?.content?.parts?.[0]?.text\<close>\<close>

definition candidate_text :: "json \<Rightarrow> error + json option" where
  "candidate_text j =
     (if j = JNull then Inl (TypeError ''null is not an object (json.candidates)'')
      else Inr (opt_chain (get_prop ''text'')
                 (opt_chain get_index0
                   (opt_chain (get_prop ''parts'')
                     (opt_chain (get_prop ''content'')
                       (opt_chain get_index0 (get_prop ''candidates'' j)))))))"

text \<open>
  The body of the \<open>for (const line of lines)\<close> loop: what one line makes the generator
  yield. An error raised inside the \<open>try\<close> is caught and the line yields nothing. The
  first function is the body in the OpenAI and the OpenRouter adapter (the two texts
  are the same), the second the body in the Google adapter.
\<close>

definition openai_line :: "(string \<Rightarrow> json option) \<Rightarrow> string \<Rightarrow> json list" where
  "openai_line parse line =
     (if startsWith line ''data: '' \<and> line \<noteq> ''data: [DONE]'' then
        (case parse (drop 6 line) of
           None \<Rightarrow> []
         | Some j \<Rightarrow>
             (case delta_content j of
                Inl e \<Rightarrow> []
              | Inr content \<Rightarrow> if js_truthy content then [the content] else []))
      else [])"

definition google_line :: "(string \<Rightarrow> json option) \<Rightarrow> string \<Rightarrow> json list" where
  "google_line parse line =
     (if startsWith line ''data: '' then
        (case parse (drop 6 line) of
           None \<Rightarrow> []
         | Some j \<Rightarrow>
             (case candidate_text j of
                Inl e \<Rightarrow> []
              | Inr t \<Rightarrow> if js_truthy t then [the t] else []))
      else [])"

text \<open>\<open>s.split("\n")\<close>: the pieces of \<open>s\<close> between newlines; never empty.\<close>

definition NL :: char where
  "NL = CHR 0x0A"

fun split_nl :: "string \<Rightarrow> string list" where
  "split_nl [] = [[]]"
| "split_nl (c # cs) =
     (if c = NL then [] # split_nl cs
      else (case split_nl cs of
              l # ls \<Rightarrow> (c # l) # ls
            | [] \<Rightarrow> [[c]]))"

text \<open>
  The byte stream, as the reader delivers it: each \<open>reader.read()\<close> either resolves to a
  chunk, given here as the text the streaming \<open>TextDecoder\<close> makes of it, or rejects; after
  the last element of the list the reader reports \<open>done\<close>.
\<close>

datatype read_result = Chunk string | ReadError error

text \<open>
  The \<open>while (true)\<close> loop with its \<open>buffer\<close>. The result is the sequence of values the
  generator yields when it is consumed to its end, and the error it ends with, if any.
  \<open>lines.pop()\<close> takes the last piece of the split as the new buffer.
\<close>

fun sse_loop :: "(string \<Rightarrow> json list) \<Rightarrow> string \<Rightarrow> read_result list \<Rightarrow> json list \<times> error option" where
  "sse_loop handle buffer [] = ([], None)"
| "sse_loop handle buffer (ReadError e # rs) = ([], Some e)"
| "sse_loop handle buffer (Chunk v # rs) =
     (let lines = split_nl (buffer @ v);
          rest = sse_loop handle (last lines) rs
      in (concat (map handle (butlast lines)) @ fst rest, snd rest))"

definition parseSSEStream :: "(string \<Rightarrow> json option) \<Rightarrow> read_result list \<Rightarrow> json list \<times> error option" where
  "parseSSEStream parse body = sse_loop (openai_line parse) [] body"

definition parseGoogleSSEStream :: "(string \<Rightarrow> json option) \<Rightarrow> read_result list \<Rightarrow> json list \<times> error option" where
  "parseGoogleSSEStream parse body = sse_loop (google_line parse) [] body"

section \<open>utils/file.ts: saveMedia\<close>

text \<open>
  The file system is the list of the writes made so far, oldest first: the path written
  and the payload handed to \<open>saveMedia\<close> (for an image the base64 text whose decoding is
  written; \<open>None\<close> is \<open>undefined\<close>, and what the platform writes for it is left open). A later
  write to the same path replaces the file. The platform's \<open>path.join\<close> and the clock are
  parameters. The ways in which \<open>saveMedia\<close> can fail (a text that is not base64, a
  directory or file that cannot be written) are left out: the payloads below are base64
  texts and every write succeeds.
\<close>

type_synonym files = "(string \<times> string option) list"

record SaveOptions =
  directory :: string
  filename :: "string option"
  media_type :: string
  format :: string

definition saveMedia ::
  "(string \<Rightarrow> string \<Rightarrow> string) \<Rightarrow> nat \<Rightarrow> string option \<Rightarrow> SaveOptions \<Rightarrow> files \<Rightarrow> string \<times> files" where
  "saveMedia join timestamp payload options fs =
     (let name = (case filename options of
                    Some f \<Rightarrow> f
                  | None \<Rightarrow> media_type options @ ''_'' @ string_of_nat timestamp @ ''.'' @ format options);
          filepath = join (directory options) name
      in (filepath, fs @ [(filepath, payload)]))"

section \<open>generateImage: where the adapters save their results\<close>

record ImageResult =
  url :: "string option"
  base64 :: "string option"
  filePath :: "string option"
  revisedPrompt :: "string option"

text \<open>
  \<open>outputPath.replace(/(\.[^.]+)$/, `_${index}$1`)\<close>. The pattern is a dot, one or more
  characters other than a dot, and the end of the text, so it can only match at the last
  dot of the path, and only when at least one character follows that dot. A path with no
  dot, or ending in a dot, is returned as it is.
\<close>

definition suffix_index :: "string \<Rightarrow> nat \<Rightarrow> string" where
  "suffix_index path index =
     (let ext = rev (takeWhile (\<lambda>c. c \<noteq> CHR ''.'') (rev path));
          stem_dot = rev (dropWhile (\<lambda>c. c \<noteq> CHR ''.'') (rev path))
      in if stem_dot = [] \<or> ext = [] then path
         else butlast stem_dot @ ''_'' @ string_of_nat index @ ''.'' @ ext)"

text \<open>
  The callback that the OpenAI and the Google adapter map over the vendor's results
  (\<open>data.data\<close> and \<open>data.predictions\<close>): \<open>n\<close> is the number of results, \<open>index\<close> the position
  of this one. It yields the path of the result and the write it issues, if any.
  \<open>Promise.all\<close> runs the callbacks of one request concurrently: the writes are listed
  below by the position of their result, and the order in which they reach the file
  system is left open.
\<close>

definition save_indexed ::
  "(string \<Rightarrow> string \<Rightarrow> string) \<Rightarrow> nat \<Rightarrow> string option \<Rightarrow> nat \<Rightarrow> string \<Rightarrow> nat
     \<Rightarrow> string option \<times> files" where
  "save_indexed join timestamp requestOutputPath n b64 index =
     (if truthy requestOutputPath then
        (let outputPath = (if n > 1 then suffix_index (the requestOutputPath) index
                           else the requestOutputPath);
             saved = saveMedia join timestamp (Some b64)
                       \<lparr>directory = ''.'', filename = Some outputPath,
                        media_type = ''image'', format = ''png''\<rparr> []
         in (Some (fst saved), snd saved))
      else (None, []))"

record OpenAIImageItem =
  b64_json :: string
  revised_prompt :: "string option"

fun openai_image_results ::
  "(string \<Rightarrow> string \<Rightarrow> string) \<Rightarrow> nat \<Rightarrow> string option \<Rightarrow> nat \<Rightarrow> OpenAIImageItem list \<Rightarrow> nat
     \<Rightarrow> ImageResult list \<times> files" where
  "openai_image_results join timestamp requestOutputPath n [] index = ([], [])"
| "openai_image_results join timestamp requestOutputPath n (item # items) index =
     (let saved = save_indexed join timestamp requestOutputPath n (b64_json item) index;
          rest = openai_image_results join timestamp requestOutputPath n items (Suc index)
      in (\<lparr>url = None, base64 = Some (b64_json item), filePath = fst saved,
           revisedPrompt = revised_prompt item\<rparr> # fst rest,
          snd saved @ snd rest))"

definition openai_generateImage_results ::
  "(string \<Rightarrow> string \<Rightarrow> string) \<Rightarrow> nat \<Rightarrow> string option \<Rightarrow> OpenAIImageItem list
     \<Rightarrow> ImageResult list \<times> files" where
  "openai_generateImage_results join timestamp requestOutputPath items =
     openai_image_results join timestamp requestOutputPath (length items) items 0"

record GooglePrediction =
  bytesBase64Encoded :: string
  mimeType :: string

fun google_image_results ::
  "(string \<Rightarrow> string \<Rightarrow> string) \<Rightarrow> nat \<Rightarrow> string option \<Rightarrow> nat \<Rightarrow> GooglePrediction list \<Rightarrow> nat
     \<Rightarrow> ImageResult list \<times> files" where
  "google_image_results join timestamp requestOutputPath n [] index = ([], [])"
| "google_image_results join timestamp requestOutputPath n (item # items) index =
     (let saved = save_indexed join timestamp requestOutputPath n (bytesBase64Encoded item) index;
          rest = google_image_results join timestamp requestOutputPath n items (Suc index)
      in (\<lparr>url = None, base64 = Some (bytesBase64Encoded item), filePath = fst saved,
           revisedPrompt = None\<rparr> # fst rest,
          snd saved @ snd rest))"

definition google_generateImage_results ::
  "(string \<Rightarrow> string \<Rightarrow> string) \<Rightarrow> nat \<Rightarrow> string option \<Rightarrow> GooglePrediction list
     \<Rightarrow> ImageResult list \<times> files" where
  "google_generateImage_results join timestamp requestOutputPath predictions =
     google_image_results join timestamp requestOutputPath (length predictions) predictions 0"

text \<open>
  The OpenRouter adapter reads its results out of a chat message. \<open>image_url\<close> is the
  \<open>image_url?.url\<close> of a part; \<open>url.split(",")[1]\<close> is the text between the first comma of
  the URL and the next one, \<open>undefined\<close> when the URL has no comma.
\<close>

record ImagePart =
  part_type :: string
  image_url :: "string option"

datatype message_content = ContentText string | ContentParts "ImagePart list"

record ChatMessage =
  content :: "message_content option"
  images :: "ImagePart list option"

definition after_first_comma :: "string \<Rightarrow> string option" where
  "after_first_comma u =
     (case dropWhile (\<lambda>c. c \<noteq> CHR '','') u of
        [] \<Rightarrow> None
      | c # r \<Rightarrow> Some (takeWhile (\<lambda>c. c \<noteq> CHR '','') r))"

text \<open>The block both loops of the OpenRouter adapter run for a part that has a URL.\<close>

definition openrouter_push ::
  "(string \<Rightarrow> string \<Rightarrow> string) \<Rightarrow> nat \<Rightarrow> string option \<Rightarrow> string \<Rightarrow> ImageResult list \<times> files
     \<Rightarrow> ImageResult list \<times> files" where
  "openrouter_push join timestamp requestOutputPath u acc =
     (if startsWith u ''data:image'' then
        (let base64Data = after_first_comma u in
         if truthy requestOutputPath then
           (let saved = saveMedia join timestamp base64Data
                          \<lparr>directory = ''.'', filename = requestOutputPath,
                           media_type = ''image'', format = ''png''\<rparr> (snd acc)
            in (fst acc @ [\<lparr>url = None, base64 = base64Data, filePath = Some (fst saved),
                             revisedPrompt = None\<rparr>],
                snd saved))
         else (fst acc @ [\<lparr>url = None, base64 = base64Data, filePath = None,
                           revisedPrompt = None\<rparr>],
               snd acc))
      else (fst acc @ [\<lparr>url = Some u, base64 = None, filePath = None, revisedPrompt = None\<rparr>],
            snd acc))"

fun openrouter_images_loop ::
  "(string \<Rightarrow> string \<Rightarrow> string) \<Rightarrow> nat \<Rightarrow> string option \<Rightarrow> ImagePart list \<Rightarrow> ImageResult list \<times> files
     \<Rightarrow> ImageResult list \<times> files" where
  "openrouter_images_loop join timestamp requestOutputPath [] acc = acc"
| "openrouter_images_loop join timestamp requestOutputPath (img # imgs) acc =
     openrouter_images_loop join timestamp requestOutputPath imgs
       (if truthy (image_url img)
        then openrouter_push join timestamp requestOutputPath (the (image_url img)) acc
        else acc)"

fun openrouter_parts_loop ::
  "(string \<Rightarrow> string \<Rightarrow> string) \<Rightarrow> nat \<Rightarrow> string option \<Rightarrow> ImagePart list \<Rightarrow> ImageResult list \<times> files
     \<Rightarrow> ImageResult list \<times> files" where
  "openrouter_parts_loop join timestamp requestOutputPath [] acc = acc"
| "openrouter_parts_loop join timestamp requestOutputPath (part # parts) acc =
     openrouter_parts_loop join timestamp requestOutputPath parts
       (if part_type part = ''image_url'' \<and> truthy (image_url part)
        then openrouter_push join timestamp requestOutputPath (the (image_url part)) acc
        else acc)"

text \<open>
  The results of \<open>generateImage\<close> in the OpenRouter adapter, from the message on. The two
  regular expressions applied to a text content are parameters: \<open>base64Match\<close> gives the
  captured base64 text, \<open>urlMatch\<close> the matched URL. \<open>raw\<close> is the serialized response, cut
  to 500 characters, that the error message quotes.
\<close>

definition openrouter_generateImage_results ::
  "(string \<Rightarrow> string \<Rightarrow> string) \<Rightarrow> nat \<Rightarrow> (string \<Rightarrow> string option) \<Rightarrow> (string \<Rightarrow> string option)
     \<Rightarrow> string \<Rightarrow> string option \<Rightarrow> ChatMessage \<Rightarrow> files
     \<Rightarrow> (error + ImageResult list) \<times> files" where
  "openrouter_generateImage_results join timestamp base64Match urlMatch raw requestOutputPath
       message fs =
     (let r1 = (case images message of
                  Some imgs \<Rightarrow> openrouter_images_loop join timestamp requestOutputPath imgs ([], fs)
                | None \<Rightarrow> ([], fs));
          r2 = (if fst r1 = [] then
                  (case content message of
                     None \<Rightarrow> r1
                   | Some (ContentText t) \<Rightarrow>
                       (if t = [] then r1
                        else case base64Match t of
                          Some base64Data \<Rightarrow>
                            (if truthy requestOutputPath then
                               (let saved = saveMedia join timestamp (Some base64Data)
                                              \<lparr>directory = ''.'', filename = requestOutputPath,
                                               media_type = ''image'', format = ''png''\<rparr> (snd r1)
                                in ([\<lparr>url = None, base64 = Some base64Data,
                                      filePath = Some (fst saved), revisedPrompt = None\<rparr>],
                                    snd saved))
                             else ([\<lparr>url = None, base64 = Some base64Data, filePath = None,
                                     revisedPrompt = None\<rparr>], snd r1))
                        | None \<Rightarrow>
                            (case urlMatch t of
                               Some u \<Rightarrow> ([\<lparr>url = Some u, base64 = None, filePath = None,
                                            revisedPrompt = None\<rparr>], snd r1)
                             | None \<Rightarrow> r1))
                   | Some (ContentParts parts) \<Rightarrow>
                       openrouter_parts_loop join timestamp requestOutputPath parts r1)
                else r1)
      in if fst r2 = []
         then (Inl (ProviderError (''No image found in response: '' @ raw) ''openrouter'' None), snd r2)
         else (Inr (fst r2), snd r2))"

section \<open>providers/index.ts: ProviderRegistry\<close>

text \<open>
  Adapter instances are objects with identity. The heap is the list of the objects
  allocated so far, and a reference is an index into it; the registry's two maps hold
  references and factories. No registry operation writes to an object once it is cached.
\<close>

type_synonym ref = nat
type_synonym heap = "provider list"
type_synonym ProviderFactory = "unit \<Rightarrow> provider"

record ProviderRegistry =
  providers :: "string \<rightharpoonup> ref"
  factories :: "string \<rightharpoonup> ProviderFactory"

definition registerFactory :: "ProviderRegistry \<Rightarrow> string \<Rightarrow> ProviderFactory \<Rightarrow> ProviderRegistry" where
  "registerFactory reg pid factory = reg\<lparr>factories := (factories reg)(pid \<mapsto> factory)\<rparr>"

text \<open>The constructor.\<close>

definition new_registry :: ProviderRegistry where
  "new_registry =
     registerFactory
       (registerFactory
          (registerFactory \<lparr>providers = Map.empty, factories = Map.empty\<rparr>
             ''openai'' OpenAIProvider)
          ''google'' GoogleProvider)
       ''openrouter'' OpenRouterProvider"

text \<open>
  \<open>getProvider\<close> is an \<open>async\<close> function. It runs without interruption from its entry to
  its \<open>return\<close>, except at \<open>await provider.initialize(config)\<close>, which it reaches only when
  a config is supplied and the id is neither cached nor unknown. There the call is
  suspended, holding the id and the instance it has built and initialized, and other
  code may run before it continues with \<open>this.providers.set(id, provider)\<close>. A call is
  therefore two steps: \<open>getProvider_start\<close>, which either returns or suspends, and
  \<open>getProvider_resume\<close>, which finishes a suspended call.
\<close>

datatype get_call = Returned "error + ref" | Awaiting string ref

definition getProvider_start ::
  "ProviderRegistry \<Rightarrow> heap \<Rightarrow> string \<Rightarrow> ProviderConfig option
     \<Rightarrow> get_call \<times> ProviderRegistry \<times> heap" where
  "getProvider_start reg h pid cfg =
     (case providers reg pid of
        Some cached \<Rightarrow> (Returned (Inr cached), reg, h)
      | None \<Rightarrow>
          (case factories reg pid of
             None \<Rightarrow> (Returned (Inl (ProviderError (''Unknown provider: '' @ pid) pid None)), reg, h)
           | Some factory \<Rightarrow>
               (let p = factory (); r = length h in
                case cfg of
                  Some c \<Rightarrow> (Awaiting pid r, reg, h @ [initialize p c])
                | None \<Rightarrow> (Returned (Inr r), reg\<lparr>providers := (providers reg)(pid \<mapsto> r)\<rparr>, h @ [p]))))"

definition getProvider_resume ::
  "string \<Rightarrow> ref \<Rightarrow> ProviderRegistry \<Rightarrow> (error + ref) \<times> ProviderRegistry" where
  "getProvider_resume pid r reg = (Inr r, reg\<lparr>providers := (providers reg)(pid \<mapsto> r)\<rparr>)"

text \<open>
  A call that runs to its end with nothing else running in between, as when the caller
  awaits it and no other call is in flight.
\<close>

definition getProvider ::
  "ProviderRegistry \<Rightarrow> heap \<Rightarrow> string \<Rightarrow> ProviderConfig option
     \<Rightarrow> (error + ref) \<times> ProviderRegistry \<times> heap" where
  "getProvider reg h pid cfg =
     (case getProvider_start reg h pid cfg of
        (Returned res, reg', h') \<Rightarrow> (res, reg', h')
      | (Awaiting q r, reg', h') \<Rightarrow>
          (fst (getProvider_resume q r reg'), snd (getProvider_resume q r reg'), h'))"

text \<open>A caller's use of the registry over time: any sequence of its two mutating operations.\<close>

datatype registry_op =
    GetProvider string "ProviderConfig option"
  | RegisterFactory string ProviderFactory

fun run_op :: "registry_op \<Rightarrow> ProviderRegistry \<times> heap \<Rightarrow> ProviderRegistry \<times> heap" where
  "run_op (GetProvider pid cfg) (reg, h) = snd (getProvider reg h pid cfg)"
| "run_op (RegisterFactory pid f) (reg, h) = (registerFactory reg pid f, h)"

fun run_ops :: "registry_op list \<Rightarrow> ProviderRegistry \<times> heap \<Rightarrow> ProviderRegistry \<times> heap" where
  "run_ops [] s = s"
| "run_ops (x # xs) s = run_ops xs (run_op x s)"

text \<open>
  The registry with calls in flight: the state is the registry, the heap and the list of
  the suspended calls (id and instance). A step starts a call, lets the suspended call at
  a position of the list continue, or registers a factory. Every order in which the
  suspended calls continue is allowed.
\<close>

type_synonym registry_state = "ProviderRegistry \<times> heap \<times> (string \<times> ref) list"

datatype async_op =
    Start string "ProviderConfig option"
  | Resume nat
  | Register string ProviderFactory

fun run_async_op :: "async_op \<Rightarrow> registry_state \<Rightarrow> registry_state" where
  "run_async_op (Start pid cfg) (reg, h, ps) =
     (case getProvider_start reg h pid cfg of
        (Returned res, reg', h') \<Rightarrow> (reg', h', ps)
      | (Awaiting q r, reg', h') \<Rightarrow> (reg', h', ps @ [(q, r)]))"
| "run_async_op (Resume k) (reg, h, ps) =
     (if k < length ps
      then (snd (getProvider_resume (fst (ps ! k)) (snd (ps ! k)) reg), h, take k ps @ drop (Suc k) ps)
      else (reg, h, ps))"
| "run_async_op (Register pid f) (reg, h, ps) = (registerFactory reg pid f, h, ps)"

fun run_async :: "async_op list \<Rightarrow> registry_state \<Rightarrow> registry_state" where
  "run_async [] s = s"
| "run_async (x # xs) s = run_async xs (run_async_op x s)"

section \<open>The registry's invariant\<close>


section \<open>config/types.ts: the pricing cache and the router configuration\<close>

text \<open>
  A number of the host language is a double. Its value is a real number; the rounding
  of double arithmetic is a parameter \<open>rnd\<close> of the functions that compute: an operation
  on two values yields \<open>rnd\<close> of the exact result. Where a number may be NaN it is a
  \<open>jsnum\<close>, with \<open>None\<close> for NaN, and an operation with NaN yields NaN. Results beyond the
  range of doubles are not treated apart.

  A field that the source guards against being absent (\<open>!cache.lastUpdated\<close>,
  \<open>cache.ttlHours ?? 24\<close>) is optional. The numbers of a pricing cache come from a JSON
  file or from the clock and are never NaN. The \<open>models\<close> table of the cache, a plain
  object, is given by its own entries, a map from model id to prices; the table is
  present in every cache, as its type \<open>PricingCache\<close> requires.
\<close>

type_synonym jsnum = "real option"

definition js_mul :: "(real \<Rightarrow> real) \<Rightarrow> jsnum \<Rightarrow> jsnum \<Rightarrow> jsnum" where
  "js_mul rnd a b =
     (case a of None \<Rightarrow> None
      | Some x \<Rightarrow> (case b of None \<Rightarrow> None | Some y \<Rightarrow> Some (rnd (x * y))))"

definition js_add :: "(real \<Rightarrow> real) \<Rightarrow> jsnum \<Rightarrow> jsnum \<Rightarrow> jsnum" where
  "js_add rnd a b =
     (case a of None \<Rightarrow> None
      | Some x \<Rightarrow> (case b of None \<Rightarrow> None | Some y \<Rightarrow> Some (rnd (x + y))))"

text \<open>\<open>a / 1_000_000\<close>\<close>

definition js_per_million :: "(real \<Rightarrow> real) \<Rightarrow> jsnum \<Rightarrow> jsnum" where
  "js_per_million rnd a = (case a of None \<Rightarrow> None | Some x \<Rightarrow> Some (rnd (x / 1000000)))"

text \<open>
  The rounding that changes nothing. It is what double arithmetic does to an operation
  whose exact result is itself a double, such as a sum, difference or product of whole
  numbers that stays below \<open>2^53\<close> in magnitude.
\<close>

definition exact :: "real \<Rightarrow> real" where
  "exact x = x"

text \<open>The fields \<open>input\<close> and \<open>output\<close> of the source: US dollars per million tokens.\<close>

record ModelPricing =
  input_price :: real
  output_price :: real

type_synonym CachedModelPricing = ModelPricing

record PricingCache =
  lastUpdated :: "real option"
  ttlHours :: "real option"
  pricing_models :: "string \<rightharpoonup> CachedModelPricing"

record CostConfig =
  maxCostPerQuery :: real
  warnThreshold :: real

text \<open>Of \<open>RouterConfig\<close>, the fields \<open>output\<close> and \<open>logging\<close> are left out: nothing below reads them.\<close>

record RouterConfig =
  config_version :: string
  defaultProvider :: string
  provider_configs :: "string \<rightharpoonup> ProviderConfig"
  cost :: "CostConfig option"
  pricing :: "PricingCache option"

section \<open>utils/pricing.ts\<close>

definition DEFAULT_PRICING :: ModelPricing where
  "DEFAULT_PRICING = \<lparr>input_price = 10, output_price = 30\<rparr>"

definition DEFAULT_CACHE_TTL_HOURS :: real where
  "DEFAULT_CACHE_TTL_HOURS = 24"

text \<open>\<open>s.includes(sub)\<close>: \<open>sub\<close> occurs in \<open>s\<close> at some offset.\<close>

definition str_includes :: "string \<Rightarrow> string \<Rightarrow> bool" where
  "str_includes s sub = list_ex (\<lambda>i. startsWith (drop i s) sub) [0..<Suc (length s)]"

datatype encoding = O200k_base | Cl100k_base

definition getEncoderForModel :: "string \<Rightarrow> encoding" where
  "getEncoderForModel m =
     (if str_includes m ''gpt-4o'' \<or> str_includes m ''gpt-5'' \<or>
         str_includes m ''o1-'' \<or> str_includes m ''o3-''
      then O200k_base else Cl100k_base)"

text \<open>
  \<open>now\<close> is the reading of \<open>Date.now()\<close>. The time to live is the product
  \<open>ttlHours * 60 * 60 * 1000\<close>, three multiplications from the left, each rounded; the age
  is the rounded difference.
\<close>

definition isPricingCacheValid :: "(real \<Rightarrow> real) \<Rightarrow> real \<Rightarrow> PricingCache option \<Rightarrow> bool" where
  "isPricingCacheValid rnd now cache =
     (case cache of
        None \<Rightarrow> False
      | Some c \<Rightarrow>
          (case lastUpdated c of
             None \<Rightarrow> False
           | Some lu \<Rightarrow>
               (if lu = 0 then False
                else let ttlMs =
                           rnd (rnd (rnd ((case ttlHours c of Some t \<Rightarrow> t
                                           | None \<Rightarrow> DEFAULT_CACHE_TTL_HOURS) * 60) * 60) * 1000)
                     in rnd (now - lu) < ttlMs)))"

text \<open>
  The world \<open>fetchAndCachePricing\<close> acts on: the number of HTTP requests issued so far
  and the configuration held by the configuration module (\<open>loadConfig\<close> reads it,
  \<open>saveConfig\<close> replaces it). The answer of the pricing endpoint is a parameter; failures
  of the configuration module are left out. The loop \<open>models[model.id] = ...\<close> adds or
  replaces the table's entry for the id; for the one id \<open>__proto__\<close> the assignment
  would instead replace the table's prototype, and the answers considered here hold no
  model of that id.
\<close>

record OpenRouterModel =
  or_id :: string
  or_name :: string
  pricing_prompt :: string
  pricing_completion :: string

record ModelsResponse =
  resp_ok :: bool
  resp_status :: nat
  resp_data :: "OpenRouterModel list"

record world =
  http_requests :: nat
  stored_config :: RouterConfig

text \<open>\<open>parseFloat(s) || 0\<close>, with the platform's \<open>parseFloat\<close> a parameter (\<open>None\<close> is NaN).\<close>

definition price_or_zero :: "(string \<Rightarrow> real option) \<Rightarrow> string \<Rightarrow> real" where
  "price_or_zero parseFloat s = (case parseFloat s of None \<Rightarrow> 0 | Some v \<Rightarrow> v)"

definition fetchAndCachePricing ::
  "(real \<Rightarrow> real) \<Rightarrow> (string \<Rightarrow> real option) \<Rightarrow> real \<Rightarrow> error + ModelsResponse \<Rightarrow> world
     \<Rightarrow> (error + PricingCache) \<times> world" where
  "fetchAndCachePricing rnd parseFloat now response w =
     (let w1 = w\<lparr>http_requests := Suc (http_requests w)\<rparr> in
      case response of
        Inl e \<Rightarrow> (Inl e, w1)
      | Inr r \<Rightarrow>
          (if \<not> resp_ok r
           then (Inl (OtherError (''Failed to fetch models: '' @ string_of_nat (resp_status r))), w1)
           else
             let ms = fold (\<lambda>m acc. acc(or_id m \<mapsto>
                              \<lparr>input_price = rnd (price_or_zero parseFloat (pricing_prompt m) * 1000000),
                               output_price =
                                 rnd (price_or_zero parseFloat (pricing_completion m) * 1000000)\<rparr>))
                        (resp_data r) Map.empty;
                 cache = \<lparr>lastUpdated = Some now, ttlHours = Some DEFAULT_CACHE_TTL_HOURS,
                          pricing_models = ms\<rparr>
             in (Inr cache, w1\<lparr>stored_config := (stored_config w1)\<lparr>pricing := Some cache\<rparr>\<rparr>)))"

text \<open>\<open>now\<close> is the clock read by the validity check, \<open>now'\<close> the one read by the refresh.\<close>

definition ensurePricingAvailable ::
  "(real \<Rightarrow> real) \<Rightarrow> (string \<Rightarrow> real option) \<Rightarrow> real \<Rightarrow> real \<Rightarrow> error + ModelsResponse
     \<Rightarrow> RouterConfig \<Rightarrow> world \<Rightarrow> (error + PricingCache) \<times> world" where
  "ensurePricingAvailable rnd parseFloat now now' response cfg w =
     (if isPricingCacheValid rnd now (pricing cfg) then (Inr (the (pricing cfg)), w)
      else fetchAndCachePricing rnd parseFloat now' response w)"

text \<open>
  \<open>cache?.models?.[model]\<close> is a property read on a plain object. It finds the table's own
  entry for the model id; failing that, it finds the member that every plain object
  inherits from \<open>Object.prototype\<close> when the model id is the name of one; otherwise it is
  \<open>undefined\<close>. The inherited members are functions, and \<open>Object.prototype\<close> itself under
  the name \<open>__proto__\<close>: all of them truthy, none with a property \<open>input\<close> or \<open>output\<close>.
\<close>

definition Object_prototype_members :: "string list" where
  "Object_prototype_members =
     [''constructor'', ''hasOwnProperty'', ''isPrototypeOf'', ''propertyIsEnumerable'',
      ''toLocaleString'', ''toString'', ''valueOf'', ''__proto__'', ''__defineGetter__'',
      ''__defineSetter__'', ''__lookupGetter__'', ''__lookupSetter__'']"

datatype models_entry = Own CachedModelPricing | Inherited | Undefined

definition lookup_model :: "PricingCache option \<Rightarrow> string \<Rightarrow> models_entry" where
  "lookup_model cache m =
     (case cache of
        None \<Rightarrow> Undefined
      | Some c \<Rightarrow>
          (case pricing_models c m of
             Some e \<Rightarrow> Own e
           | None \<Rightarrow> if m \<in> set Object_prototype_members then Inherited else Undefined))"

text \<open>
  What \<open>getModelPricing\<close> returns: a pricing, or an inherited member of the table passed
  off as one. Reading \<open>input\<close> or \<open>output\<close> of the latter gives \<open>undefined\<close>, which
  arithmetic turns into NaN.
\<close>

datatype pricing_value = Pricing ModelPricing | PrototypeMember

fun pricing_input :: "pricing_value \<Rightarrow> jsnum" where
  "pricing_input (Pricing pr) = Some (input_price pr)"
| "pricing_input PrototypeMember = None"

fun pricing_output :: "pricing_value \<Rightarrow> jsnum" where
  "pricing_output (Pricing pr) = Some (output_price pr)"
| "pricing_output PrototypeMember = None"

definition getModelPricing :: "string \<Rightarrow> PricingCache option \<Rightarrow> pricing_value" where
  "getModelPricing m cache =
     (case lookup_model cache m of
        Own e \<Rightarrow> Pricing e
      | Inherited \<Rightarrow> PrototypeMember
      | Undefined \<Rightarrow> Pricing DEFAULT_PRICING)"

text \<open>
  The tokenizer library is a parameter: \<open>encode enc text\<close> is the number of tokens the
  encoder \<open>enc\<close> produces for \<open>text\<close>, or \<open>None\<close> when the library raises.
\<close>

definition estimateTokens ::
  "(encoding \<Rightarrow> string \<Rightarrow> nat option) \<Rightarrow> string \<Rightarrow> string option \<Rightarrow> nat" where
  "estimateTokens encode txt m =
     (case encode (getEncoderForModel (case m of Some x \<Rightarrow> x | None \<Rightarrow> [])) txt of
        Some n \<Rightarrow> n
      | None \<Rightarrow> nat \<lceil>real (length txt) / 4\<rceil>)"

text \<open>
  The cost estimate, with \<open>'n\<close> the type of its numbers: \<open>jsnum\<close> for what \<open>estimateCost\<close>
  computes, which may be NaN.
\<close>

record 'n CostEstimate =
  model :: string
  inputTokens :: nat
  estimatedOutputTokens :: 'n
  inputCost :: 'n
  outputCost :: 'n
  totalCost :: 'n
  isEstimate :: bool

text \<open>
  \<open>expectedOutputTokens\<close> is \<open>None\<close> when the argument is not passed (the default 1000
  applies) and a number, possibly NaN, otherwise.
\<close>

definition estimateCost ::
  "(real \<Rightarrow> real) \<Rightarrow> (encoding \<Rightarrow> string \<Rightarrow> nat option) \<Rightarrow> string \<Rightarrow> string \<Rightarrow> string option
     \<Rightarrow> jsnum option \<Rightarrow> PricingCache option \<Rightarrow> jsnum CostEstimate" where
  "estimateCost rnd encode m prompt systemPrompt expectedOutputTokens cache =
     (let expected = (case expectedOutputTokens of Some n \<Rightarrow> n | None \<Rightarrow> Some 1000);
          pr = getModelPricing m cache;
          inputText = (case systemPrompt of Some s \<Rightarrow> s | None \<Rightarrow> []) @ prompt;
          inTokens = estimateTokens encode inputText (Some m);
          inCost = js_mul rnd (js_per_million rnd (Some (real inTokens))) (pricing_input pr);
          outCost = js_mul rnd (js_per_million rnd expected) (pricing_output pr);
          total = js_add rnd inCost outCost;
          isEst = (lookup_model cache m = Undefined)
      in \<lparr>model = m, inputTokens = inTokens, estimatedOutputTokens = expected,
          inputCost = inCost, outputCost = outCost, totalCost = total, isEstimate = isEst\<rparr>)"

text \<open>
  The error of the cost guard carries the estimate and the ceiling. The guard compares
  numbers; it is given here for estimates whose costs are real numbers.
\<close>

datatype cost_error = CostLimitExceededError "real CostEstimate" real

definition checkCostLimit :: "real CostEstimate \<Rightarrow> real \<Rightarrow> cost_error + unit" where
  "checkCostLimit estimate maxCost =
     (if maxCost > 0 \<and> totalCost estimate > maxCost
      then Inl (CostLimitExceededError estimate maxCost)
      else Inr ())"

section \<open>Example values\<close>

text \<open>A configuration whose \<open>models\<close> block holds at most a text model, and an adapter
  with a given list of built-in models.\<close>

definition example_config :: "string option \<Rightarrow> ProviderConfig" where
  "example_config tm =
     \<lparr>apiKey = ''k'', baseUrl = None, timeout = None, maxRetries = None,
      organization = None, projectId = None, region = None,
      models = Some \<lparr>text_model = tm, image_model = None, audio_model = None,
                      tts_model = None, video_model = None\<rparr>\<rparr>"

definition example_adapter :: "string list \<Rightarrow> provider" where
  "example_adapter builtin =
     new_provider
       \<lparr>provider_id = ''test'', provider_name = ''Test'', version = ''1.0.0'',
        capabilities = [Text]\<rparr>
       (\<lambda>c. builtin)"

text \<open>A pricing cache with one entry, and a tokenizer that counts 100 tokens for every text.\<close>

definition example_cache :: PricingCache where
  "example_cache =
     \<lparr>lastUpdated = Some 1762000000000, ttlHours = Some 24,
      pricing_models = [''openai/gpt-4o'' \<mapsto> \<lparr>input_price = 5, output_price = 15\<rparr>]\<rparr>"

definition example_encode :: "encoding \<Rightarrow> string \<Rightarrow> nat option" where
  "example_encode enc txt = Some 100"

definition example_router_config :: RouterConfig where
  "example_router_config =
     \<lparr>config_version = ''1.0.0'', defaultProvider = ''openai'', provider_configs = Map.empty,
      cost = None, pricing = Some example_cache\<rparr>"

definition example_world :: world where
  "example_world = \<lparr>http_requests = 0, stored_config = example_router_config\<rparr>"

text \<open>
  Two environments for the retry executor: one whose first two calls fail (a rejected
  call, then a response that is not ok) and whose third call succeeds, and one whose
  calls all reject, each with its own error.
\<close>

definition ok_response :: Response where
  "ok_response = \<lparr>ok = True, status = 200, body_text = Inr ''{}''\<rparr>"

definition fails_twice :: "nat \<Rightarrow> fetch_result" where
  "fails_twice i = (if i = 0 then Rejected (OtherError ''timeout'')
                    else if i = 1 then Resolved \<lparr>ok = False, status = 503, body_text = Inr ''busy''\<rparr>
                    else Resolved ok_response)"

definition fails_always :: "nat \<Rightarrow> fetch_result" where
  "fails_always i = (if i = 0 then Rejected (OtherError ''first'')
                     else if i = 1 then Rejected (OtherError ''second'')
                     else Rejected (OtherError ''third''))"

text \<open>
  Two event lines, one in the format of the OpenAI and OpenRouter endpoints and one in
  the format of the Google endpoint, the JSON values of their payloads, and a parser
  that knows these two payloads and rejects every other text.
\<close>

definition hi_line :: string where
  \<open>hi_line = ''data: {"choices":[{"delta":{"content":"Hi"}}]}''\<close>

definition hi_json :: json where
  "hi_json =
     JObject [(''choices'', JArray [JObject [(''delta'', JObject [(''content'', JString ''Hi'')])]])]"

definition gemini_line :: string where
  \<open>gemini_line = ''data: {"candidates":[{"content":{"parts":[{"text":"Hi"}]}}]}''\<close>

definition gemini_json :: json where
  "gemini_json =
     JObject [(''candidates'',
       JArray [JObject [(''content'', JObject [(''parts'', JArray [JObject [(''text'', JString ''Hi'')]])])]])]"

definition example_parse :: "string \<Rightarrow> json option" where
  "example_parse s =
     (if s = drop 6 hi_line then Some hi_json
      else if s = drop 6 gemini_line then Some gemini_json
      else None)"

text \<open>A chat message of the OpenRouter endpoint that carries two inline images.\<close>

definition two_images_message :: ChatMessage where
  "two_images_message =
     \<lparr>content = None,
      images = Some [\<lparr>part_type = ''image_url'', image_url = Some ''data:image/png;base64,AAAA''\<rparr>,
                     \<lparr>part_type = ''image_url'', image_url = Some ''data:image/png;base64,BBBB''\<rparr>]\<rparr>"

section \<open>The model resolution order as the specification words it\<close>

text \<open>
  The specification's \<open>resolveModel\<close>: the requested model when one is supplied, else the
  default the configuration holds for that capability, else the first built-in model,
  else a failure. The configuration has the keys text, image, audio, tts and video, and
  none for embedding.
\<close>

fun spec_configModel :: "Models \<Rightarrow> Capability \<Rightarrow> string option" where
  "spec_configModel cm Text = text_model cm"
| "spec_configModel cm Image = image_model cm"
| "spec_configModel cm Audio = audio_model cm"
| "spec_configModel cm Video = video_model cm"
| "spec_configModel cm Embedding = None"

definition resolveModel_spec :: "provider \<Rightarrow> Capability \<Rightarrow> string option \<Rightarrow> error + string" where
  "resolveModel_spec p capability requested =
     (case requested of
        Some m \<Rightarrow> Inr m
      | None \<Rightarrow>
          (case Option.bind (Option.bind (config p) models) (\<lambda>cm. spec_configModel cm capability) of
             Some m \<Rightarrow> Inr m
           | None \<Rightarrow>
               (case getModels p capability of
                  m # ms \<Rightarrow> Inr m
                | [] \<Rightarrow> Inl (ProviderError
                             (''No model available for '' @ capability_str capability)
                             (provider_id (meta p)) None))))"

chapter \<open>Properties\<close>

section \<open>Model resolution (C1)\<close>

text \<open>
  C1, as stated, fails on the code in two places. A requested model that is supplied as
  the empty string is not returned: \<open>if (requestModel)\<close> tests truthiness, and the
  configured model is returned instead. And for the capability embedding the code reads
  the configuration's text key, so a configured text model wins over the adapter's
  built-in embedding models although no embedding default is configured.
\<close>

theorem getModel_precedence_counterexample:
  "getModel (initialize (OpenAIProvider ()) (example_config (Some ''m2''))) Text (Some '''')
     \<noteq> resolveModel_spec (initialize (OpenAIProvider ()) (example_config (Some ''m2''))) Text (Some '''')
   \<and> getModel (initialize (OpenAIProvider ()) (example_config (Some ''m2''))) Embedding None
     \<noteq> resolveModel_spec (initialize (OpenAIProvider ()) (example_config (Some ''m2''))) Embedding None"
  by (simp add: getModel_def resolveModel_spec_def initialize_def OpenAIProvider_def
      new_provider_def example_config_def)

text \<open>
  C1 (amended). On an adapter that holds a config, \<open>getModel\<close> returns the requested
  model when it is a non-empty string; otherwise the non-empty model the config holds
  under the capability's key, where embedding reads the text key; otherwise the first
  built-in model of the adapter for the capability; otherwise it fails with the
  provider error "No model available for <capability>".
\<close>

theorem getModel_precedence:
  "config p = Some cfg \<Longrightarrow>
   (truthy req \<longrightarrow> getModel p cap req = Inr (the req)) \<and>
   (\<not> truthy req \<and> models cfg = Some cm \<and> truthy (configModel cm cap)
      \<longrightarrow> getModel p cap req = Inr (the (configModel cm cap))) \<and>
   (\<not> truthy req \<and> (models cfg = None \<or> models cfg = Some cm \<and> \<not> truthy (configModel cm cap))
      \<and> getModels p cap = m # ms
      \<longrightarrow> getModel p cap req = Inr m) \<and>
   (\<not> truthy req \<and> (models cfg = None \<or> models cfg = Some cm \<and> \<not> truthy (configModel cm cap))
      \<and> getModels p cap = []
      \<longrightarrow> getModel p cap req =
            Inl (ProviderError (''No model available for '' @ capability_str cap)
                   (provider_id (meta p)) None)) \<and>
   configModel cm Embedding = text_model cm"
  by (auto simp: getModel_def split: option.splits)

text \<open>The four examples of the claim: (m1, m2, m3), (-, m2, m3), (-, -, m3) and (-, -, none).\<close>

theorem getModel_precedence_witness:
  "getModel (initialize (example_adapter [''m3'']) (example_config (Some ''m2''))) Text (Some ''m1'')
     = Inr ''m1'' \<and>
   getModel (initialize (example_adapter [''m3'']) (example_config (Some ''m2''))) Text None
     = Inr ''m2'' \<and>
   getModel (initialize (example_adapter [''m3'']) (example_config None)) Text None
     = Inr ''m3'' \<and>
   getModel (initialize (example_adapter []) (example_config None)) Text None
     = Inl (ProviderError ''No model available for text'' ''test'' None)"
proof -
  let ?cm = "\<lambda>tm. \<lparr>text_model = tm, image_model = None, audio_model = None,
                     tts_model = None, video_model = None\<rparr>"
  have c: "\<And>b tm. config (initialize (example_adapter b) (example_config tm))
                     = Some (example_config tm)"
    by (simp add: initialize_def)
  have 1: "getModel (initialize (example_adapter [''m3'']) (example_config (Some ''m2'')))
             Text (Some ''m1'') = Inr ''m1''"
    using getModel_precedence [OF c, of "Some ''m1''" "[''m3'']" "Some ''m2''" Text]
    by simp
  have 2: "getModel (initialize (example_adapter [''m3'']) (example_config (Some ''m2'')))
             Text None = Inr ''m2''"
    using getModel_precedence [OF c, of None "[''m3'']" "Some ''m2''" Text "?cm (Some ''m2'')"]
    by (simp add: example_config_def)
  have 3: "getModel (initialize (example_adapter [''m3'']) (example_config None)) Text None
             = Inr ''m3''"
    using getModel_precedence [OF c, of None "[''m3'']" None Text "?cm None" "''m3''" "[]"]
    by (simp add: example_config_def initialize_def example_adapter_def new_provider_def)
  have 4: "getModel (initialize (example_adapter []) (example_config None)) Text None
             = Inl (ProviderError ''No model available for text'' ''test'' None)"
    using getModel_precedence [OF c, of None "[]" None Text "?cm None"]
    by (simp add: example_config_def initialize_def example_adapter_def new_provider_def)
  from 1 2 3 4 show ?thesis by blast
qed

section \<open>Cost estimation (C4)\<close>

lemma lookup_constructor: "lookup_model (Some example_cache) ''constructor'' = Inherited"
  by (simp add: lookup_model_def example_cache_def Object_prototype_members_def)

text \<open>
  C4 says that a model without an entry in the cache is priced at the default of 10 and
  30 per million tokens, with \<open>isEstimate\<close> true. For the model id \<open>constructor\<close> the code
  does not do so. The cache holds no entry for it, but the lookup \<open>cache.models[model]\<close>
  finds the member of that name which the table inherits as a plain object, and
  \<open>getModelPricing\<close> returns it as the pricing. It has no prices: whatever the tokenizer,
  the prompt and the output budget, \<open>estimateCost\<close> returns NaN for the input cost, the
  output cost and the total, and \<open>isEstimate\<close> false. On the request of the claim's
  example (100 tokens in, 1000 out) the claim expects 0.001, 0.03, 0.031 and \<open>isEstimate\<close>
  true.
\<close>

theorem estimateCost_inherited_member:
  "estimateCost rnd encode ''constructor'' prompt sys expected (Some example_cache)
     = \<lparr>model = ''constructor'',
        inputTokens = estimateTokens encode ((case sys of Some s \<Rightarrow> s | None \<Rightarrow> []) @ prompt)
                        (Some ''constructor''),
        estimatedOutputTokens = (case expected of Some n \<Rightarrow> n | None \<Rightarrow> Some 1000),
        inputCost = None, outputCost = None, totalCost = None, isEstimate = False\<rparr> \<and>
   estimateCost exact example_encode ''constructor'' ''Hello'' None (Some (Some 1000)) (Some example_cache)
     = \<lparr>model = ''constructor'', inputTokens = 100, estimatedOutputTokens = Some 1000,
        inputCost = None, outputCost = None, totalCost = None, isEstimate = False\<rparr> \<and>
   pricing_models example_cache ''constructor'' = None \<and>
   getModelPricing ''constructor'' (Some example_cache) = PrototypeMember"
proof -
  have g: "getModelPricing ''constructor'' (Some example_cache) = PrototypeMember"
    by (simp add: getModelPricing_def lookup_constructor)
  have a: "estimateCost rnd encode ''constructor'' prompt sys expected (Some example_cache)
     = \<lparr>model = ''constructor'',
        inputTokens = estimateTokens encode ((case sys of Some s \<Rightarrow> s | None \<Rightarrow> []) @ prompt)
                        (Some ''constructor''),
        estimatedOutputTokens = (case expected of Some n \<Rightarrow> n | None \<Rightarrow> Some 1000),
        inputCost = None, outputCost = None, totalCost = None, isEstimate = False\<rparr>"
    for rnd encode prompt sys expected
    by (simp add: estimateCost_def g lookup_constructor Let_def js_mul_def js_add_def
        js_per_million_def split: option.splits)
  have t: "estimateTokens example_encode ''Hello'' (Some ''constructor'') = 100"
    by (simp add: estimateTokens_def example_encode_def)
  have b: "estimateCost exact example_encode ''constructor'' ''Hello'' None (Some (Some 1000)) (Some example_cache)
     = \<lparr>model = ''constructor'', inputTokens = 100, estimatedOutputTokens = Some 1000,
        inputCost = None, outputCost = None, totalCost = None, isEstimate = False\<rparr>"
    by (simp add: a t)
  have c: "pricing_models example_cache ''constructor'' = None"
    by (simp add: example_cache_def)
  from a b c g show ?thesis by (intro conjI)
qed

text \<open>
  For every model id whose lookup does not end at an inherited member, the costs are the
  claim's formulas in double arithmetic: each division, product and sum rounded. The
  prices are the cache entry of the model when there is one, and then \<open>isEstimate\<close> is
  false; otherwise they are 10 and 30, and \<open>isEstimate\<close> is true.
\<close>

lemma estimateCost_formula:
  "lookup_model cache m \<noteq> Inherited \<Longrightarrow>
   (let r = estimateCost rnd encode m prompt sys (Some (Some n)) cache;
        entry = (case cache of None \<Rightarrow> None | Some c \<Rightarrow> pricing_models c m);
        pr = (case entry of Some e \<Rightarrow> e | None \<Rightarrow> \<lparr>input_price = 10, output_price = 30\<rparr>)
    in inputCost r = Some (rnd (rnd (real (inputTokens r) / 1000000) * input_price pr)) \<and>
       outputCost r = Some (rnd (rnd (n / 1000000) * output_price pr)) \<and>
       totalCost r = Some (rnd (the (inputCost r) + the (outputCost r))) \<and>
       inputTokens r
         = estimateTokens encode ((case sys of Some s \<Rightarrow> s | None \<Rightarrow> []) @ prompt) (Some m) \<and>
       estimatedOutputTokens r = Some n \<and>
       isEstimate r = (entry = None) \<and>
       model r = m)"
  by (auto simp: estimateCost_def getModelPricing_def lookup_model_def DEFAULT_PRICING_def Let_def
      js_mul_def js_add_def js_per_million_def split: option.splits if_splits)

text \<open>
  The example of the claim, and the same request for a model the cache does not hold,
  in exact arithmetic. (In double arithmetic the operations yield the doubles nearest to
  these fractions.)
\<close>

lemma estimateCost_example:
  "estimateCost exact example_encode ''openai/gpt-4o'' ''Hello'' None (Some (Some 1000)) (Some example_cache)
     = \<lparr>model = ''openai/gpt-4o'', inputTokens = 100, estimatedOutputTokens = Some 1000,
        inputCost = Some 0.0005, outputCost = Some 0.015, totalCost = Some 0.0155,
        isEstimate = False\<rparr> \<and>
   estimateCost exact example_encode ''other/model'' ''Hello'' None (Some (Some 1000)) (Some example_cache)
     = \<lparr>model = ''other/model'', inputTokens = 100, estimatedOutputTokens = Some 1000,
        inputCost = Some 0.001, outputCost = Some 0.03, totalCost = Some 0.031,
        isEstimate = True\<rparr>"
proof -
  have t: "\<And>txt m. estimateTokens example_encode txt m = 100"
    by (simp add: estimateTokens_def example_encode_def)
  have a: "lookup_model (Some example_cache) ''openai/gpt-4o''
             = Own \<lparr>input_price = 5, output_price = 15\<rparr>"
    by (simp add: lookup_model_def example_cache_def)
  have b: "lookup_model (Some example_cache) ''other/model'' = Undefined"
    by (simp add: lookup_model_def example_cache_def Object_prototype_members_def)
  show ?thesis
    by (simp add: estimateCost_def getModelPricing_def a b t Let_def js_mul_def js_add_def
        js_per_million_def exact_def DEFAULT_PRICING_def)
qed

section \<open>The cost guard (C5)\<close>

text \<open>
  C5. \<open>checkCostLimit\<close> raises \<open>CostLimitExceededError\<close>, carrying the estimate and the
  ceiling, if and only if the ceiling is greater than 0 and the estimate's total cost is
  strictly greater than the ceiling. A ceiling of 0 never raises. A ceiling of 0.01
  with a total cost of 0.0155 raises.
\<close>

theorem checkCostLimit_iff:
  "((checkCostLimit est maxCost = Inl (CostLimitExceededError est maxCost))
      = (0 < maxCost \<and> maxCost < totalCost est)) \<and>
   ((checkCostLimit est maxCost = Inr ()) = (\<not> (0 < maxCost \<and> maxCost < totalCost est))) \<and>
   checkCostLimit est 0 = Inr () \<and>
   checkCostLimit (est\<lparr>totalCost := 0.0155\<rparr>) 0.01
     = Inl (CostLimitExceededError (est\<lparr>totalCost := 0.0155\<rparr>) 0.01)"
  by (simp add: checkCostLimit_def)

section \<open>Validity of the pricing cache (C7)\<close>

text \<open>
  C7, as stated, fails on the code: a cache whose \<open>lastUpdated\<close> is 0 is judged invalid
  by the guard \<open>!cache.lastUpdated\<close> even when \<open>now - lastUpdated\<close> is below the time to
  live, and a cache with \<open>lastUpdated = now\<close> is invalid when its time to live is 0. All
  numbers of the two examples are whole and below \<open>2^53\<close>, so their arithmetic is exact.
\<close>

theorem isPricingCacheValid_counterexample:
  "\<not> (isPricingCacheValid exact 1762000000000
         (Some \<lparr>lastUpdated = Some 0, ttlHours = Some 1000000, pricing_models = Map.empty\<rparr>)
       \<longleftrightarrow> (1762000000000 - 0 < (1000000::real) * 3600000)) \<and>
   \<not> isPricingCacheValid exact 1762000000000
        (Some \<lparr>lastUpdated = Some 1762000000000, ttlHours = Some 0, pricing_models = Map.empty\<rparr>)"
  by (simp add: isPricingCacheValid_def exact_def)

text \<open>
  C7 (amended). An absent cache is invalid. A cache is judged valid if and only if its
  \<open>lastUpdated\<close> is present and not 0 and \<open>now - lastUpdated < ttlHours * 60 * 60 * 1000\<close>,
  where an absent \<open>ttlHours\<close> counts as 24 and the difference and the three products are
  those of double arithmetic, each rounded. Whenever these four operations are exact (as
  they are for hours and milliseconds that are whole numbers), this is
  \<open>now - lastUpdated < ttlHours * 3600000\<close> together with \<open>lastUpdated\<close> not being 0; then a
  cache with \<open>lastUpdated = now - ttlHours * 3600000 - 1\<close> is invalid, and a cache with
  \<open>lastUpdated = now\<close> is valid when \<open>now\<close> is not 0 and \<open>ttlHours\<close> is positive.
  \<open>ensurePricingAvailable\<close> returns a valid cache as it is and leaves the world untouched:
  no request is issued and nothing is stored.
\<close>

theorem isPricingCacheValid_iff:
  "isPricingCacheValid rnd now (Some c) =
     (\<exists>lu. lastUpdated c = Some lu \<and> lu \<noteq> 0 \<and>
           rnd (now - lu)
             < rnd (rnd (rnd ((case ttlHours c of Some t \<Rightarrow> t | None \<Rightarrow> 24) * 60) * 60) * 1000)) \<and>
   \<not> isPricingCacheValid rnd now None \<and>
   (ttlHours c = Some t \<and> lastUpdated c = Some lu \<and>
    rnd (t * 60) = t * 60 \<and> rnd (t * 60 * 60) = t * 3600 \<and> rnd (t * 3600 * 1000) = t * 3600000 \<and>
    rnd (now - lu) = now - lu
      \<longrightarrow> isPricingCacheValid rnd now (Some c) = (lu \<noteq> 0 \<and> now - lu < t * 3600000) \<and>
          (lu = now - t * 3600000 - 1 \<longrightarrow> \<not> isPricingCacheValid rnd now (Some c)) \<and>
          (lu = now \<and> now \<noteq> 0 \<and> 0 < t \<longrightarrow> isPricingCacheValid rnd now (Some c))) \<and>
   (isPricingCacheValid rnd now (pricing cfg)
      \<longrightarrow> ensurePricingAvailable rnd parseFloat now now' response cfg w
            = (Inr (the (pricing cfg)), w))"
proof (intro conjI impI)
  show "isPricingCacheValid rnd now (Some c) =
     (\<exists>lu. lastUpdated c = Some lu \<and> lu \<noteq> 0 \<and>
           rnd (now - lu)
             < rnd (rnd (rnd ((case ttlHours c of Some t \<Rightarrow> t | None \<Rightarrow> 24) * 60) * 60) * 1000))"
    by (auto simp: isPricingCacheValid_def DEFAULT_CACHE_TTL_HOURS_def Let_def split: option.splits)
  show "\<not> isPricingCacheValid rnd now None" by (simp add: isPricingCacheValid_def)
  {
    assume a: "ttlHours c = Some t \<and> lastUpdated c = Some lu \<and>
      rnd (t * 60) = t * 60 \<and> rnd (t * 60 * 60) = t * 3600 \<and> rnd (t * 3600 * 1000) = t * 3600000 \<and>
      rnd (now - lu) = now - lu"
    then show e: "isPricingCacheValid rnd now (Some c) = (lu \<noteq> 0 \<and> now - lu < t * 3600000)"
      by (simp add: isPricingCacheValid_def Let_def)
    { assume "lu = now - t * 3600000 - 1"
      with e show "\<not> isPricingCacheValid rnd now (Some c)" by simp }
    { assume "lu = now \<and> now \<noteq> 0 \<and> 0 < t"
      with e show "isPricingCacheValid rnd now (Some c)" by simp }
  }
  { assume "isPricingCacheValid rnd now (pricing cfg)"
    then show "ensurePricingAvailable rnd parseFloat now now' response cfg w
            = (Inr (the (pricing cfg)), w)"
      by (simp add: ensurePricingAvailable_def) }
qed

text \<open>A cache refreshed at the time of the check, one that is a millisecond too old, the
  same cache a millisecond before and at the end of its 24 hours, and a call of
  \<open>ensurePricingAvailable\<close> on the valid one.\<close>

theorem isPricingCacheValid_iff_witness:
  "\<not> isPricingCacheValid exact 1762000000000
       (Some (example_cache\<lparr>lastUpdated := Some (1762000000000 - 24 * 3600000 - 1)\<rparr>)) \<and>
   isPricingCacheValid exact 1762000000000 (Some example_cache) \<and>
   isPricingCacheValid exact 1762086399999 (Some example_cache) \<and>
   \<not> isPricingCacheValid exact 1762086400000 (Some example_cache) \<and>
   ensurePricingAvailable exact (\<lambda>s. None) 1762000000000 1762000000001 (Inl (OtherError ''offline''))
      example_router_config example_world = (Inr example_cache, example_world)"
proof -
  have 1: "ttlHours example_cache = Some 24" "lastUpdated example_cache = Some 1762000000000"
    by (simp_all add: example_cache_def)
  have 2: "pricing example_router_config = Some example_cache"
    by (simp add: example_router_config_def)
  have v: "isPricingCacheValid exact 1762000000000 (Some example_cache)"
    using isPricingCacheValid_iff [of exact 1762000000000 example_cache 24 1762000000000] 1
    by (simp add: exact_def)
  have v2: "isPricingCacheValid exact 1762086399999 (Some example_cache)"
    using isPricingCacheValid_iff [of exact 1762086399999 example_cache 24 1762000000000] 1
    by (simp add: exact_def)
  have v3: "\<not> isPricingCacheValid exact 1762086400000 (Some example_cache)"
    using isPricingCacheValid_iff [of exact 1762086400000 example_cache 24 1762000000000] 1
    by (simp add: exact_def)
  have i: "\<not> isPricingCacheValid exact 1762000000000
       (Some (example_cache\<lparr>lastUpdated := Some (1762000000000 - 24 * 3600000 - 1)\<rparr>))"
    using isPricingCacheValid_iff [of exact 1762000000000
        "example_cache\<lparr>lastUpdated := Some (1762000000000 - 24 * 3600000 - 1)\<rparr>" 24
        "1762000000000 - 24 * 3600000 - 1"] 1
    by (simp add: exact_def)
  have e: "ensurePricingAvailable exact (\<lambda>s. None) 1762000000000 1762000000001
      (Inl (OtherError ''offline'')) example_router_config example_world
        = (Inr example_cache, example_world)"
    using isPricingCacheValid_iff [of exact 1762000000000 example_cache 24 1762000000000
        example_router_config] v 2 by simp
  from i v v2 v3 e show ?thesis by (intro conjI)
qed

section \<open>The provider registry (C6, C9)\<close>

lemma getProvider_start_cached:
  "providers reg pid = Some r \<Longrightarrow> getProvider_start reg h pid c = (Returned (Inr r), reg, h)"
  by (simp add: getProvider_start_def)

lemma getProvider_cached:
  "providers reg pid = Some r \<Longrightarrow> getProvider reg h pid c = (Inr r, reg, h)"
  by (simp add: getProvider_def getProvider_start_def)


lemma getProvider_unknown:
  "providers reg pid = None \<Longrightarrow> factories reg pid = None \<Longrightarrow>
   getProvider reg h pid c = (Inl (ProviderError (''Unknown provider: '' @ pid) pid None), reg, h)"
  by (simp add: getProvider_def getProvider_start_def)

lemma getProvider_fresh:
  "providers reg pid = None \<Longrightarrow> factories reg pid = Some f \<Longrightarrow>
   getProvider reg h pid c =
     (Inr (length h), reg\<lparr>providers := (providers reg)(pid \<mapsto> length h)\<rparr>,
      h @ [case c of Some cfg \<Rightarrow> initialize (f ()) cfg | None \<Rightarrow> f ()])"
  by (cases c) (simp_all add: getProvider_def getProvider_start_def getProvider_resume_def Let_def)

lemma run_op_stable:
  assumes "providers reg pid = Some r" "r < length h" "run_op x (reg, h) = (reg', h')"
  shows "providers reg' pid = Some r \<and> r < length h' \<and> h' ! r = h ! r"
proof (cases x)
  case (GetProvider q c)
  show ?thesis
  proof (cases "providers reg q")
    case None
    then have "q \<noteq> pid" using assms(1) by auto
    show ?thesis
    proof (cases "factories reg q")
      case N: None
      from assms GetProvider getProvider_unknown [OF None N, of h c] show ?thesis by simp
    next
      case (Some f)
      from assms GetProvider \<open>q \<noteq> pid\<close> getProvider_fresh [OF None Some, of h c] show ?thesis
        by (auto simp: nth_append)
    qed
  next
    case (Some a)
    with assms GetProvider getProvider_cached [OF Some, of h c] show ?thesis by simp
  qed
next
  case (RegisterFactory q f)
  with assms show ?thesis by (auto simp: registerFactory_def)
qed

lemma run_ops_stable:
  "providers reg pid = Some r \<Longrightarrow> r < length h \<Longrightarrow> run_ops xs (reg, h) = (reg', h') \<Longrightarrow>
   providers reg' pid = Some r \<and> r < length h' \<and> h' ! r = h ! r"
proof (induction xs arbitrary: reg h)
  case Nil
  then show ?case by simp
next
  case (Cons x xs)
  obtain reg1 h1 where s: "run_op x (reg, h) = (reg1, h1)" by (cases "run_op x (reg, h)")
  from run_op_stable [OF Cons.prems(1,2) s]
  have 1: "providers reg1 pid = Some r" "r < length h1" "h1 ! r = h ! r" by simp_all
  from Cons.prems(3) s have "run_ops xs (reg1, h1) = (reg', h')" by simp
  from Cons.IH [OF 1(1,2) this] 1(3) show ?case by simp
qed

lemma getProvider_start_cases:
  obtains (Cached) r where "getProvider_start reg h q c = (Returned (Inr r), reg, h)"
      "providers reg q = Some r"
  | (Unknown) "getProvider_start reg h q c
        = (Returned (Inl (ProviderError (''Unknown provider: '' @ q) q None)), reg, h)"
      "providers reg q = None" "factories reg q = None"
  | (Built) f where "getProvider_start reg h q c
        = (Returned (Inr (length h)), reg\<lparr>providers := (providers reg)(q \<mapsto> length h)\<rparr>, h @ [f ()])"
      "providers reg q = None" "factories reg q = Some f" "c = None"
  | (Suspended) f cfg where "getProvider_start reg h q c
        = (Awaiting q (length h), reg, h @ [initialize (f ()) cfg])"
      "providers reg q = None" "factories reg q = Some f" "c = Some cfg"
  by (cases "providers reg q"; cases "factories reg q"; cases c)
     (simp_all add: getProvider_start_def Let_def)

lemma set_remove_nth: "set (take k ps @ drop (Suc k) ps) \<subseteq> set ps"
  by (auto dest: in_set_takeD in_set_dropD)


lemma run_async_op_stable:
  assumes c: "providers reg pid = Some r" and l: "r < length h" and np: "pid \<notin> fst ` set ps"
    and s: "run_async_op x (reg, h, ps) = (reg', h', ps')"
  shows "providers reg' pid = Some r \<and> r < length h' \<and> h' ! r = h ! r \<and> pid \<notin> fst ` set ps'"
proof (cases x)
  case (Start q cfg)
  show ?thesis
  proof (cases rule: getProvider_start_cases [of reg h q cfg])
    case (Cached r')
    with s Start c l np show ?thesis by simp
  next
    case Unknown
    with s Start c l np show ?thesis by simp
  next
    case (Built f)
    from Built(2) c have "q \<noteq> pid" by auto
    with Built(1) s Start c l np show ?thesis by (auto simp: nth_append)
  next
    case (Suspended f c')
    from Suspended(2) c have "q \<noteq> pid" by auto
    with Suspended(1) s Start c l np show ?thesis by (auto simp: nth_append)
  qed
next
  case (Resume k)
  show ?thesis
  proof (cases "k < length ps")
    case True
    then have "ps ! k \<in> set ps" by simp
    then have "fst (ps ! k) \<in> fst ` set ps" by (rule imageI)
    with np have ne: "fst (ps ! k) \<noteq> pid" by auto
    have sub: "fst ` set (take k ps @ drop (Suc k) ps) \<subseteq> fst ` set ps"
      by (rule image_mono) (rule set_remove_nth)
    from s Resume True have r:
      "reg' = reg\<lparr>providers := (providers reg)(fst (ps ! k) \<mapsto> snd (ps ! k))\<rparr>"
      "h' = h" "ps' = take k ps @ drop (Suc k) ps"
      by (simp_all add: getProvider_resume_def)
    from r(1) ne c have "providers reg' pid = Some r" by simp
    moreover from sub np have "pid \<notin> fst ` set ps'" unfolding r(3) by blast
    ultimately show ?thesis using l r(2) by simp
  next
    case False
    with s Resume c l np show ?thesis by simp
  qed
next
  case (Register q f)
  with s c l np show ?thesis by (auto simp: registerFactory_def)
qed

lemma run_async_stable:
  "providers reg pid = Some r \<Longrightarrow> r < length h \<Longrightarrow> pid \<notin> fst ` set ps \<Longrightarrow>
   run_async xs (reg, h, ps) = (reg', h', ps') \<Longrightarrow>
   providers reg' pid = Some r \<and> r < length h' \<and> h' ! r = h ! r \<and> pid \<notin> fst ` set ps'"
proof (induction xs arbitrary: reg h ps)
  case Nil
  then show ?case by simp
next
  case (Cons x xs)
  obtain reg1 h1 ps1 where s: "run_async_op x (reg, h, ps) = (reg1, h1, ps1)"
    by (cases "run_async_op x (reg, h, ps)")
  from run_async_op_stable [OF Cons.prems(1,2,3) s]
  have 1: "providers reg1 pid = Some r" "r < length h1" "pid \<notin> fst ` set ps1" "h1 ! r = h ! r"
    by simp_all
  from Cons.prems(4) s have "run_async xs (reg1, h1, ps1) = (reg', h', ps')" by simp
  from Cons.IH [OF 1(1,2,3) this] 1(4) show ?case by simp
qed









text \<open>
  C9. When the first \<open>getProvider\<close> call for an id supplies no config, the registry
  caches the adapter as its factory built it, without calling \<open>initialize\<close>. After any
  further registry operations, a \<open>getProvider\<close> call for that id that does supply a
  config returns the same reference, the object is still the uninitialized one, and
  \<open>ensureInitialized\<close> fails on it. (The registry is the only caller of \<open>initialize\<close> in
  the repository.)
\<close>

theorem uninitialized_instance_stays_cached:
  "providers reg pid = None \<and> factories reg pid = Some f \<and> \<not> initialized (f ()) \<Longrightarrow>
   (\<exists>r reg1 h1.
      getProvider reg h pid None = (Inr r, reg1, h1) \<and> r < length h1 \<and> h1 ! r = f () \<and>
      (\<forall>ops' cfg. \<exists>reg2 h2.
         run_ops ops' (reg1, h1) = (reg2, h2) \<and>
         getProvider reg2 h2 pid (Some cfg) = (Inr r, reg2, h2) \<and>
         r < length h2 \<and> h2 ! r = f () \<and> \<not> initialized (h2 ! r) \<and>
         ensureInitialized (h2 ! r)
           = Inl (ProviderError (provider_name (meta (f ())) @ '' provider not initialized'')
                    (provider_id (meta (f ()))) None)))"
proof -
  assume a: "providers reg pid = None \<and> factories reg pid = Some f \<and> \<not> initialized (f ())"
  let ?reg1 = "reg\<lparr>providers := (providers reg)(pid \<mapsto> length h)\<rparr>"
  let ?h1 = "h @ [f ()]"
  from a getProvider_fresh [of reg pid f h None]
  have g: "getProvider reg h pid None = (Inr (length h), ?reg1, ?h1)" by simp
  have c: "providers ?reg1 pid = Some (length h)" by simp
  have l: "length h < length ?h1" by simp
  have later: "\<exists>reg2 h2.
         run_ops ops' (?reg1, ?h1) = (reg2, h2) \<and>
         getProvider reg2 h2 pid (Some cfg) = (Inr (length h), reg2, h2) \<and>
         length h < length h2 \<and> h2 ! length h = f () \<and> \<not> initialized (h2 ! length h) \<and>
         ensureInitialized (h2 ! length h)
           = Inl (ProviderError (provider_name (meta (f ())) @ '' provider not initialized'')
                    (provider_id (meta (f ()))) None)" for ops' cfg
  proof -
    obtain reg2 h2 where s: "run_ops ops' (?reg1, ?h1) = (reg2, h2)"
      by (cases "run_ops ops' (?reg1, ?h1)")
    from run_ops_stable [OF c l s]
    have 1: "providers reg2 pid = Some (length h)" "length h < length h2" "h2 ! length h = f ()"
      by simp_all
    from a 1 s getProvider_cached [OF 1(1), of h2 "Some cfg"] show ?thesis
      by (simp add: ensureInitialized_def)
  qed
  from g later show ?thesis by (intro exI [of _ "length h"] exI [of _ ?reg1] exI [of _ ?h1]) simp
qed

text \<open>The built-in id google, first requested without a config on a new registry.\<close>

theorem uninitialized_instance_stays_cached_witness:
  "(\<exists>r reg1 h1.
      getProvider new_registry [] ''google'' None = (Inr r, reg1, h1) \<and> r < length h1 \<and>
      h1 ! r = GoogleProvider () \<and>
      (\<forall>ops' cfg. \<exists>reg2 h2.
         run_ops ops' (reg1, h1) = (reg2, h2) \<and>
         getProvider reg2 h2 ''google'' (Some cfg) = (Inr r, reg2, h2) \<and>
         r < length h2 \<and> h2 ! r = GoogleProvider () \<and> \<not> initialized (h2 ! r) \<and>
         ensureInitialized (h2 ! r)
           = Inl (ProviderError ''Google AI provider not initialized'' ''google'' None)))"
proof -
  have a: "providers new_registry ''google'' = None \<and>
           factories new_registry ''google'' = Some GoogleProvider \<and>
           \<not> initialized (GoogleProvider ())"
    by (simp add: new_registry_def registerFactory_def GoogleProvider_def new_provider_def)
  have m: "provider_name (meta (GoogleProvider ())) = ''Google AI''"
     "provider_id (meta (GoogleProvider ())) = ''google''"
    by (simp_all add: GoogleProvider_def new_provider_def)
  from uninitialized_instance_stays_cached [OF a, of "[]"] show ?thesis
    by (simp add: m)
qed

text \<open>
  The call without a config is never suspended, so the same holds with other calls in
  flight, as long as none of them is a suspended call for this id: the call caches the
  instance as built, and every later call for the id, with or without a config, returns
  it at once.
\<close>

lemma uninitialized_stays_cached_with_calls_in_flight:
  "providers reg pid = None \<Longrightarrow> factories reg pid = Some f \<Longrightarrow> pid \<notin> fst ` set ps \<Longrightarrow>
   getProvider_start reg h pid None
     = (Returned (Inr (length h)), reg\<lparr>providers := (providers reg)(pid \<mapsto> length h)\<rparr>, h @ [f ()]) \<and>
   (\<forall>ops' cfg. \<exists>reg2 h2 ps2.
      run_async ops' (reg\<lparr>providers := (providers reg)(pid \<mapsto> length h)\<rparr>, h @ [f ()], ps)
        = (reg2, h2, ps2) \<and>
      getProvider_start reg2 h2 pid cfg = (Returned (Inr (length h)), reg2, h2) \<and>
      length h < length h2 \<and> h2 ! length h = f ())"
proof (intro conjI allI)
  assume p: "providers reg pid = None" and f: "factories reg pid = Some f"
    and np: "pid \<notin> fst ` set ps"
  let ?reg1 = "reg\<lparr>providers := (providers reg)(pid \<mapsto> length h)\<rparr>"
  let ?h1 = "h @ [f ()]"
  from p f show "getProvider_start reg h pid None = (Returned (Inr (length h)), ?reg1, ?h1)"
    by (simp add: getProvider_start_def Let_def)
  fix ops' cfg
  obtain reg2 h2 ps2 where s: "run_async ops' (?reg1, ?h1, ps) = (reg2, h2, ps2)"
    by (cases "run_async ops' (?reg1, ?h1, ps)")
  have c: "providers ?reg1 pid = Some (length h)" by simp
  have l: "length h < length ?h1" by simp
  from run_async_stable [OF c l np s]
  have 1: "providers reg2 pid = Some (length h)" "length h < length h2" "h2 ! length h = f ()"
    by simp_all
  from 1 s getProvider_start_cached [OF 1(1), of h2 cfg]
  show "\<exists>reg2 h2 ps2.
      run_async ops' (?reg1, ?h1, ps) = (reg2, h2, ps2) \<and>
      getProvider_start reg2 h2 pid cfg = (Returned (Inr (length h)), reg2, h2) \<and>
      length h < length h2 \<and> h2 ! length h = f ()" by simp
qed

section \<open>The retry executor (C2)\<close>

lemma retry_loop_fail_step:
  "int i < maxR \<Longrightarrow> attempt p fetch i = Inl e \<Longrightarrow>
   retry_loop p fetch maxR i le sl =
     retry_loop p fetch maxR (Suc i) (Some e)
       (if int i < maxR - 1 then sl @ [1000 * (int i + 1)] else sl)"
  by (subst retry_loop.simps) simp

lemma retry_loop_ok_step:
  "int i < maxR \<Longrightarrow> attempt p fetch i = Inr r \<Longrightarrow>
   retry_loop p fetch maxR i le sl = (Inr r, \<lparr>attempts = Suc i, sleeps = sl\<rparr>)"
  by (simp add: retry_loop.simps [of p fetch maxR i])

lemma retry_loop_stop:
  "\<not> int i < maxR \<Longrightarrow>
   retry_loop p fetch maxR i le sl =
     (Inl (case le of Some e \<Rightarrow> e
           | None \<Rightarrow> ProviderError ''Unknown error'' (provider_id (meta p)) None),
      \<lparr>attempts = i, sleeps = sl\<rparr>)"
  by (simp add: retry_loop.simps [of p fetch maxR i])

lemma retry_loop_success:
  "i \<le> k \<Longrightarrow> int k < maxR \<Longrightarrow> (\<forall>j. i \<le> j \<and> j < k \<longrightarrow> isl (attempt p fetch j)) \<Longrightarrow>
   attempt p fetch k = Inr r \<Longrightarrow>
   retry_loop p fetch maxR i le sl
     = (Inr r, \<lparr>attempts = Suc k, sleeps = sl @ map (\<lambda>j. 1000 * int j) [Suc i..<Suc k]\<rparr>)"
proof (induction "k - i" arbitrary: i le sl)
  case 0
  then have "i = k" by simp
  with 0 retry_loop_ok_step [of k maxR p fetch r le sl] show ?case by simp
next
  case (Suc d)
  then have lt: "i < k" by simp
  with Suc.prems obtain e where e: "attempt p fetch i = Inl e"
    by (cases "attempt p fetch i") auto
  from lt Suc.prems have b: "int i < maxR" "int i < maxR - 1" by simp_all
  have d: "d = k - Suc i" using Suc.hyps(2) by simp
  have le': "Suc i \<le> k" using lt by simp
  have f: "\<forall>j. Suc i \<le> j \<and> j < k \<longrightarrow> isl (attempt p fetch j)" using Suc.prems(3) by simp
  have up: "[Suc i..<Suc k] = Suc i # [Suc (Suc i)..<Suc k]"
    using lt by (simp add: upt_conv_Cons del: upt_Suc)
  have s1: "1000 * (int i + 1) = 1000 * int (Suc i)" by simp
  have "retry_loop p fetch maxR i le sl
          = retry_loop p fetch maxR (Suc i) (Some e) (sl @ [1000 * int (Suc i)])"
    using retry_loop_fail_step [OF b(1) e, of le sl] b(2) unfolding s1 by simp
  also have "\<dots> = (Inr r, \<lparr>attempts = Suc k,
       sleeps = (sl @ [1000 * int (Suc i)]) @ map (\<lambda>j. 1000 * int j) [Suc (Suc i)..<Suc k]\<rparr>)"
    by (rule Suc.hyps(1) [OF d le' Suc.prems(2) f Suc.prems(4)])
  finally show ?case unfolding up by simp
qed

lemma retry_loop_exhausted:
  "int i < maxR \<Longrightarrow> (\<forall>j. i \<le> j \<and> int j < maxR \<longrightarrow> isl (attempt p fetch j)) \<Longrightarrow>
   retry_loop p fetch maxR i le sl
     = (Inl (projl (attempt p fetch (nat maxR - 1))),
        \<lparr>attempts = nat maxR, sleeps = sl @ map (\<lambda>j. 1000 * int j) [Suc i..<nat maxR]\<rparr>)"
proof (induction "nat maxR - Suc i" arbitrary: i le sl)
  case 0
  then have i: "Suc i = nat maxR" by simp
  then have n: "\<not> int (Suc i) < maxR" "\<not> int i < maxR - 1" by simp_all
  from 0 obtain e where e: "attempt p fetch i = Inl e"
    by (cases "attempt p fetch i") auto
  have last: "nat maxR - 1 = i" using i by simp
  have "retry_loop p fetch maxR i le sl = retry_loop p fetch maxR (Suc i) (Some e) sl"
    using retry_loop_fail_step [OF "0.prems"(1) e] n(2) by simp
  also have "\<dots> = (Inl e, \<lparr>attempts = Suc i, sleeps = sl\<rparr>)"
    using retry_loop_stop [OF n(1)] by simp
  finally have r: "retry_loop p fetch maxR i le sl = (Inl e, \<lparr>attempts = Suc i, sleeps = sl\<rparr>)" .
  have pe: "projl (attempt p fetch (nat maxR - 1)) = e" using last e by simp
  show ?case unfolding r pe using i by simp
next
  case (Suc d)
  then have lt: "int (Suc i) < maxR" by simp
  then have b: "int i < maxR - 1" by simp
  from Suc.prems obtain e where e: "attempt p fetch i = Inl e"
    by (cases "attempt p fetch i") auto
  have d: "d = nat maxR - Suc (Suc i)" using Suc.hyps(2) by simp
  have f: "\<forall>j. Suc i \<le> j \<and> int j < maxR \<longrightarrow> isl (attempt p fetch j)" using Suc.prems(2) by simp
  have up: "[Suc i..<nat maxR] = Suc i # [Suc (Suc i)..<nat maxR]"
    using lt by (simp add: upt_conv_Cons)
  have s1: "1000 * (int i + 1) = 1000 * int (Suc i)" by simp
  have "retry_loop p fetch maxR i le sl
          = retry_loop p fetch maxR (Suc i) (Some e) (sl @ [1000 * int (Suc i)])"
    using retry_loop_fail_step [OF Suc.prems(1) e, of le sl] b unfolding s1 by simp
  also have "\<dots> = (Inl (projl (attempt p fetch (nat maxR - 1))),
        \<lparr>attempts = nat maxR,
         sleeps = (sl @ [1000 * int (Suc i)]) @ map (\<lambda>j. 1000 * int j) [Suc (Suc i)..<nat maxR]\<rparr>)"
    by (rule Suc.hyps(1) [OF d lt f])
  finally show ?case unfolding up by simp
qed

lemma retry_loop_log:
  "(int i < maxR \<longrightarrow> i < attempts (snd (retry_loop p fetch maxR i le sl))) \<and>
   attempts (snd (retry_loop p fetch maxR i le sl)) \<le> max i (nat maxR) \<and>
   sleeps (snd (retry_loop p fetch maxR i le sl))
     = sl @ map (\<lambda>j. 1000 * int j) [Suc i..<attempts (snd (retry_loop p fetch maxR i le sl))]"
proof (induction p fetch maxR i le sl rule: retry_loop.induct)
  case (1 p fetch maxR i lastError sl)
  show ?case
  proof (cases "int i < maxR")
    case False
    then show ?thesis by (simp add: retry_loop_stop)
  next
    case True
    show ?thesis
    proof (cases "attempt p fetch i")
      case (Inr r)
      with True show ?thesis by (simp add: retry_loop_ok_step)
    next
      case (Inl e)
      show ?thesis
      proof (cases "int i < maxR - 1")
        case t: True
        let ?rest = "retry_loop p fetch maxR (Suc i) (Some e) (sl @ [1000 * (int i + 1)])"
        have eq: "retry_loop p fetch maxR i lastError sl = ?rest"
          using retry_loop_fail_step [OF True Inl, of lastError sl] t by (simp only: if_True)
        define a where "a = attempts (snd ?rest)"
        from t have t': "int (Suc i) < maxR" by simp
        from "1.IH" [OF True Inl] t t'
        have ih: "Suc i < a" "a \<le> max (Suc i) (nat maxR)"
            "sleeps (snd ?rest) = (sl @ [1000 * (int i + 1)]) @
               map (\<lambda>j. 1000 * int j) [Suc (Suc i)..<a]"
          unfolding a_def by simp_all
        have up: "[Suc i..<a] = Suc i # [Suc (Suc i)..<a]"
          using ih(1) by (simp add: upt_conv_Cons)
        from ih(1,2) True have b: "i < a" "a \<le> max i (nat maxR)"
          by auto
        have c: "sleeps (snd ?rest) = sl @ map (\<lambda>j. 1000 * int j) [Suc i..<a]"
          unfolding ih(3) up by simp
        show ?thesis unfolding eq using b c unfolding a_def by simp
      next
        case f: False
        then have n: "\<not> int (Suc i) < maxR" by simp
        have "retry_loop p fetch maxR i lastError sl = retry_loop p fetch maxR (Suc i) (Some e) sl"
          using retry_loop_fail_step [OF True Inl, of lastError sl] f by simp
        also have "\<dots> = (Inl e, \<lparr>attempts = Suc i, sleeps = sl\<rparr>)"
          using retry_loop_stop [OF n] by simp
        finally show ?thesis using True by simp
      qed
    qed
  qed
qed

text \<open>
  C2. Let \<open>N\<close> be the maximum attempt count: the \<open>retries\<close> argument when given, else
  the config's \<open>maxRetries\<close>, else 3. The executor never makes more than \<open>N\<close> attempts.
  It sleeps between consecutive attempts only, never after the last one: before the
  attempt of 0-based index \<open>j\<close> it sleeps \<open>1000 * j\<close> milliseconds, so the sleeps are
  1000, 2000, ... When the attempts before attempt \<open>k < N\<close> all fail and attempt \<open>k\<close>
  succeeds, the result is the response of attempt \<open>k\<close>. When all \<open>N > 0\<close> attempts fail,
  the executor raises the error of the last attempt, which for a call that rejected is
  the very error it rejected with.
\<close>

theorem fetchWithRetry_behaviour:
  "resolveMaxRetries p retries = Inr N \<Longrightarrow>
   int (attempts (snd (fetchWithRetry p fetch retries))) \<le> max 0 N \<and>
   sleeps (snd (fetchWithRetry p fetch retries))
     = map (\<lambda>j. 1000 * int j) [1..<attempts (snd (fetchWithRetry p fetch retries))] \<and>
   (\<forall>k r. int k < N \<and> (\<forall>j<k. isl (attempt p fetch j)) \<and> attempt p fetch k = Inr r
      \<longrightarrow> fst (fetchWithRetry p fetch retries) = Inr r \<and>
          attempts (snd (fetchWithRetry p fetch retries)) = Suc k) \<and>
   (0 < N \<and> (\<forall>j. int j < N \<longrightarrow> isl (attempt p fetch j))
      \<longrightarrow> fst (fetchWithRetry p fetch retries) = Inl (projl (attempt p fetch (nat N - 1))) \<and>
          attempts (snd (fetchWithRetry p fetch retries)) = nat N) \<and>
   (\<forall>j e. config p \<noteq> None \<and> fetch j = Rejected e \<longrightarrow> attempt p fetch j = Inl e) \<and>
   (\<forall>n. retries = Some n \<longrightarrow> N = n) \<and>
   (\<forall>cfg. retries = None \<and> config p = Some cfg
      \<longrightarrow> N = (case maxRetries cfg of Some n \<Rightarrow> n | None \<Rightarrow> 3))"
proof -
  assume N: "resolveMaxRetries p retries = Inr N"
  then have f: "fetchWithRetry p fetch retries = retry_loop p fetch N 0 None []"
    by (simp add: fetchWithRetry_def)
  note log = retry_loop_log [of 0 N p fetch None "[]"]
  have 1: "int (attempts (snd (fetchWithRetry p fetch retries))) \<le> max 0 N"
    unfolding f using log by auto
  have 2: "sleeps (snd (fetchWithRetry p fetch retries))
     = map (\<lambda>j. 1000 * int j) [1..<attempts (snd (fetchWithRetry p fetch retries))]"
    unfolding f using log by simp
  have 3: "fst (fetchWithRetry p fetch retries) = Inr r \<and>
          attempts (snd (fetchWithRetry p fetch retries)) = Suc k"
    if "int k < N \<and> (\<forall>j<k. isl (attempt p fetch j)) \<and> attempt p fetch k = Inr r" for k r
    unfolding f using retry_loop_success [of 0 k N p fetch r None "[]"] that by simp
  have 4: "fst (fetchWithRetry p fetch retries) = Inl (projl (attempt p fetch (nat N - 1))) \<and>
          attempts (snd (fetchWithRetry p fetch retries)) = nat N"
    if "0 < N \<and> (\<forall>j. int j < N \<longrightarrow> isl (attempt p fetch j))"
    unfolding f using retry_loop_exhausted [of 0 N p fetch None "[]"] that by simp
  have 5: "\<forall>j e. config p \<noteq> None \<and> fetch j = Rejected e \<longrightarrow> attempt p fetch j = Inl e"
    by (auto simp: attempt_def)
  have 6: "\<forall>n. retries = Some n \<longrightarrow> N = n"
    using N by (auto simp: resolveMaxRetries_def)
  have 7: "\<forall>cfg. retries = None \<and> config p = Some cfg
      \<longrightarrow> N = (case maxRetries cfg of Some n \<Rightarrow> n | None \<Rightarrow> 3)"
    using N by (auto simp: resolveMaxRetries_def)
  from 1 2 3 4 5 6 7 show ?thesis by blast
qed

text \<open>
  With the default of three attempts: failing twice and succeeding on the third attempt
  returns the third response after sleeps of 1000 and 2000 milliseconds; failing three
  times raises the third error after the same two sleeps.
\<close>

theorem fetchWithRetry_behaviour_witness:
  "fetchWithRetry (initialize (example_adapter []) (example_config None)) fails_twice None
     = (Inr ok_response, \<lparr>attempts = 3, sleeps = [1000, 2000]\<rparr>) \<and>
   fetchWithRetry (initialize (example_adapter []) (example_config None)) fails_always (Some 3)
     = (Inl (OtherError ''third''), \<lparr>attempts = 3, sleeps = [1000, 2000]\<rparr>)"
proof -
  let ?p = "initialize (example_adapter []) (example_config None)"
  have c: "config ?p = Some (example_config None)" by (simp add: initialize_def)
  have N1: "resolveMaxRetries ?p None = Inr 3"
    by (simp add: resolveMaxRetries_def initialize_def example_config_def)
  have N2: "resolveMaxRetries ?p (Some 3) = Inr 3"
    by (simp add: resolveMaxRetries_def)
  have a: "isl (attempt ?p fails_twice 0)" "isl (attempt ?p fails_twice 1)"
      "attempt ?p fails_twice 2 = Inr ok_response"
    by (simp_all add: attempt_def c fails_twice_def ok_response_def)
  have a': "\<forall>j<2. isl (attempt ?p fails_twice j)"
    using a(1,2) by (simp add: less_Suc_eq numeral_2_eq_2)
  have b: "\<forall>j. int j < 3 \<longrightarrow> isl (attempt ?p fails_always j)"
    by (simp add: attempt_def c fails_always_def)
  have b3: "attempt ?p fails_always 2 = Inl (OtherError ''third'')"
    by (simp add: attempt_def c fails_always_def)
  have up: "[1..<3] = [1, 2::nat]" by (simp add: upt_rec)
  note t1 = fetchWithRetry_behaviour [OF N1, of fails_twice]
  note t2 = fetchWithRetry_behaviour [OF N2, of fails_always]
  have r1: "sleeps (snd (fetchWithRetry ?p fails_twice None))
     = map (\<lambda>j. 1000 * int j) [1..<attempts (snd (fetchWithRetry ?p fails_twice None))]"
    "fst (fetchWithRetry ?p fails_twice None) = Inr ok_response"
    "attempts (snd (fetchWithRetry ?p fails_twice None)) = 3"
    using t1 [THEN conjunct2, THEN conjunct1]
      t1 [THEN conjunct2, THEN conjunct2, THEN conjunct1, rule_format, of 2 ok_response] a' a(3)
    by simp_all
  have r2: "sleeps (snd (fetchWithRetry ?p fails_always (Some 3)))
     = map (\<lambda>j. 1000 * int j) [1..<attempts (snd (fetchWithRetry ?p fails_always (Some 3)))]"
    "fst (fetchWithRetry ?p fails_always (Some 3)) = Inl (OtherError ''third'')"
    "attempts (snd (fetchWithRetry ?p fails_always (Some 3))) = 3"
    using t2 [THEN conjunct2, THEN conjunct1]
      t2 [THEN conjunct2, THEN conjunct2, THEN conjunct2, THEN conjunct1, rule_format] b b3
    by simp_all
  have e1: "fetchWithRetry ?p fails_twice None = (Inr ok_response, \<lparr>attempts = 3, sleeps = [1000, 2000]\<rparr>)"
    using r1 up by (cases "fetchWithRetry ?p fails_twice None") (simp add: retry_log.equality)
  have e2: "fetchWithRetry ?p fails_always (Some 3) = (Inl (OtherError ''third''), \<lparr>attempts = 3, sleeps = [1000, 2000]\<rparr>)"
    using r2 up by (cases "fetchWithRetry ?p fails_always (Some 3)") (simp add: retry_log.equality)
  from e1 e2 show ?thesis by simp
qed

section \<open>The SSE decoder (C3)\<close>

lemma split_nl_not_Nil: "split_nl s \<noteq> []"
  by (induction s) (auto split: list.splits)

lemma split_nl_Cons:
  "c \<noteq> NL \<Longrightarrow> split_nl (c # cs) = (c # hd (split_nl cs)) # tl (split_nl cs)"
  using split_nl_not_Nil [of cs] by (cases "split_nl cs") simp_all

lemma split_nl_no_newline: "NL \<notin> set s \<Longrightarrow> split_nl s = [s]"
  by (induction s) (auto split: list.splits)

lemma last_split_nl_no_newline: "NL \<notin> set (last (split_nl s))"
proof (induction s)
  case Nil
  show ?case by simp
next
  case (Cons c cs)
  show ?case
  proof (cases "c = NL")
    case True
    with Cons split_nl_not_Nil [of cs] show ?thesis by simp
  next
    case False
    obtain l ls where s: "split_nl cs = l # ls"
      using split_nl_not_Nil [of cs] by (cases "split_nl cs") auto
    with Cons False show ?thesis by (cases ls) auto
  qed
qed

text \<open>Splitting after a newline: the pieces before it, then the pieces after it.\<close>

lemma split_nl_append_newline: "split_nl (a @ NL # b) = split_nl a @ split_nl b"
proof (induction a)
  case Nil
  show ?case by simp
next
  case (Cons c cs)
  show ?case
  proof (cases "c = NL")
    case True
    with Cons show ?thesis by simp
  next
    case False
    obtain l ls where s: "split_nl cs = l # ls"
      using split_nl_not_Nil [of cs] by (cases "split_nl cs") auto
    with Cons False show ?thesis by simp
  qed
qed

lemma split_nl_append_no_newline:
  "NL \<notin> set a \<Longrightarrow> split_nl (a @ b) = (a @ hd (split_nl b)) # tl (split_nl b)"
proof (induction a)
  case Nil
  then show ?case using split_nl_not_Nil [of b] by simp
next
  case (Cons c cs)
  then show ?case by auto
qed

text \<open>Carrying the last piece over to the next chunk gives the split of the whole text.\<close>

lemma split_nl_append:
  "split_nl (a @ b) = butlast (split_nl a) @ split_nl (last (split_nl a) @ b)"
proof (induction a)
  case Nil
  show ?case by simp
next
  case (Cons c cs)
  obtain l ls where s: "split_nl cs = l # ls"
    using split_nl_not_Nil [of cs] by (cases "split_nl cs") auto
  obtain l' ls' where s': "split_nl (cs @ b) = l' # ls'"
    using split_nl_not_Nil [of "cs @ b"] by (cases "split_nl (cs @ b)") auto
  show ?case
  proof (cases "c = NL")
    case True
    with Cons s show ?thesis by simp
  next
    case False
    show ?thesis
    proof (cases ls)
      case Nil
      with Cons s s' False show ?thesis by simp
    next
      case (Cons m ms)
      with Cons.IH s s' False show ?thesis by simp
    qed
  qed
qed

lemma sse_loop_chunks:
  "NL \<notin> set buffer \<Longrightarrow>
   sse_loop handle buffer (map Chunk cs)
     = (concat (map handle (butlast (split_nl (buffer @ concat cs)))), None)"
proof (induction cs arbitrary: buffer)
  case Nil
  then show ?case by (simp add: split_nl_no_newline)
next
  case (Cons c cs)
  let ?lines = "split_nl (buffer @ c)"
  have ih: "sse_loop handle (last ?lines) (map Chunk cs)
     = (concat (map handle (butlast (split_nl (last ?lines @ concat cs)))), None)"
    by (rule Cons.IH) (rule last_split_nl_no_newline)
  have "butlast (split_nl ((buffer @ c) @ concat cs))
          = butlast ?lines @ butlast (split_nl (last ?lines @ concat cs))"
    by (subst split_nl_append) (simp add: butlast_append split_nl_not_Nil)
  then show ?case by (simp add: Let_def ih)
qed

lemma parseSSEStream_lines:
  "parseSSEStream parse (map Chunk cs)
     = (concat (map (openai_line parse) (butlast (split_nl (concat cs)))), None)"
  using sse_loop_chunks [of "[]" "openai_line parse" cs] by (simp add: parseSSEStream_def)

lemma parseGoogleSSEStream_lines:
  "parseGoogleSSEStream parse (map Chunk cs)
     = (concat (map (google_line parse) (butlast (split_nl (concat cs)))), None)"
  using sse_loop_chunks [of "[]" "google_line parse" cs] by (simp add: parseGoogleSSEStream_def)

lemma openai_line_not_data: "\<not> startsWith line ''data: '' \<Longrightarrow> openai_line parse line = []"
  by (simp add: openai_line_def)

lemma openai_line_done: "openai_line parse ''data: [DONE]'' = []"
  by (simp add: openai_line_def)

lemma openai_line_hi: "parse (drop 6 hi_line) = Some hi_json \<Longrightarrow> openai_line parse hi_line = [JString ''Hi'']"
  by (simp add: openai_line_def startsWith_def) (simp add: hi_line_def hi_json_def delta_content_def)

lemma openai_line_not_json: "parse ''not-json'' = None \<Longrightarrow> openai_line parse ''data: not-json'' = []"
  by (simp add: openai_line_def)

lemma hi_line_no_newline: "NL \<notin> set hi_line"
  by (simp add: hi_line_def NL_def)

lemma butlast_split_nl_drop_line:
  assumes "pre = [] \<or> last pre = NL" "NL \<notin> set line"
  shows "butlast (split_nl (pre @ line @ NL # post))
           = butlast (split_nl pre) @ [line] @ butlast (split_nl post)"
    and "butlast (split_nl (pre @ post)) = butlast (split_nl pre) @ butlast (split_nl post)"
proof -
  have l: "split_nl (line @ NL # post) = line # split_nl post"
    using assms(2) by (simp add: split_nl_append_newline split_nl_no_newline)
  from assms(1) show "butlast (split_nl (pre @ line @ NL # post))
           = butlast (split_nl pre) @ [line] @ butlast (split_nl post)"
  proof
    assume "pre = []"
    with l show ?thesis by (simp add: split_nl_not_Nil)
  next
    assume n: "last pre = NL"
    show ?thesis
    proof (cases "pre = []")
      case True
      with l show ?thesis by (simp add: split_nl_not_Nil)
    next
      case False
      with n obtain p where p: "pre = p @ [NL]" by (metis append_butlast_last_id)
      then have "split_nl (pre @ line @ NL # post) = split_nl p @ line # split_nl post"
        using l by (simp add: split_nl_append_newline)
      moreover have "split_nl pre = split_nl p @ [[]]"
        using p split_nl_append_newline [of p "[]"] by simp
      ultimately show ?thesis by (simp add: butlast_append split_nl_not_Nil)
    qed
  qed
  from assms(1) show "butlast (split_nl (pre @ post)) = butlast (split_nl pre) @ butlast (split_nl post)"
  proof
    assume "pre = []"
    then show ?thesis by simp
  next
    assume n: "last pre = NL"
    show ?thesis
    proof (cases "pre = []")
      case True
      then show ?thesis by simp
    next
      case False
      with n obtain p where p: "pre = p @ [NL]" by (metis append_butlast_last_id)
      then have "split_nl (pre @ post) = split_nl p @ split_nl post"
        by (simp add: split_nl_append_newline)
      moreover have "split_nl pre = split_nl p @ [[]]"
        using p split_nl_append_newline [of p "[]"] by simp
      ultimately show ?thesis by (simp add: butlast_append split_nl_not_Nil)
    qed
  qed
qed

text \<open>
  C3. For every parser that reads the payload \<open>{"choices":[{"delta":{"content":"Hi"}}]}\<close>
  as that JSON value, and however the bytes are cut into chunks: the text of the line
  \<open>data: {"choices":[{"delta":{"content":"Hi"}}]}\<close>, a newline, the line \<open>data: [DONE]\<close> and
  a newline makes the decoder yield the single chunk "Hi" and end without error. When the
  parser rejects \<open>not-json\<close>, the line \<open>data: not-json\<close> followed by a newline yields
  nothing and raises nothing. A line that does not start with \<open>data: \<close> yields nothing,
  and removing such a line from a stream does not change what the decoder yields.
\<close>

theorem parseSSEStream_roundtrip:
  "(\<forall>cs. concat cs = hi_line @ [NL] @ ''data: [DONE]'' @ [NL] \<and>
         parse (drop 6 hi_line) = Some hi_json
      \<longrightarrow> parseSSEStream parse (map Chunk cs) = ([JString ''Hi''], None)) \<and>
   (\<forall>cs. concat cs = ''data: not-json'' @ [NL] \<and> parse ''not-json'' = None
      \<longrightarrow> parseSSEStream parse (map Chunk cs) = ([], None)) \<and>
   (parse ''not-json'' = None \<longrightarrow> openai_line parse ''data: not-json'' = []) \<and>
   openai_line parse ''data: [DONE]'' = [] \<and>
   (\<forall>line. \<not> startsWith line ''data: '' \<longrightarrow> openai_line parse line = []) \<and>
   (\<forall>cs pre line post.
      concat cs = pre @ line @ NL # post \<and> (pre = [] \<or> last pre = NL) \<and>
      NL \<notin> set line \<and> \<not> startsWith line ''data: ''
      \<longrightarrow> parseSSEStream parse (map Chunk cs) = parseSSEStream parse [Chunk (pre @ post)])"
proof (intro conjI allI impI)
  fix cs
  assume a: "concat cs = hi_line @ [NL] @ ''data: [DONE]'' @ [NL] \<and>
         parse (drop 6 hi_line) = Some hi_json"
  have d: "NL \<notin> set ''data: [DONE]''" by (simp add: NL_def)
  have "split_nl (hi_line @ [NL] @ ''data: [DONE]'' @ [NL]) = [hi_line, ''data: [DONE]'', []]"
    using split_nl_append_newline [of hi_line "''data: [DONE]'' @ [NL]"]
      split_nl_append_newline [of "''data: [DONE]''" "[]"]
      split_nl_no_newline [OF hi_line_no_newline] split_nl_no_newline [OF d]
    by simp
  with a show "parseSSEStream parse (map Chunk cs) = ([JString ''Hi''], None)"
    by (simp add: parseSSEStream_lines openai_line_hi openai_line_done)
next
  fix cs
  assume a: "concat cs = ''data: not-json'' @ [NL] \<and> parse ''not-json'' = None"
  have d: "NL \<notin> set ''data: not-json''" by (simp add: NL_def)
  have "split_nl (''data: not-json'' @ [NL]) = [''data: not-json'', []]"
    using split_nl_append_newline [of "''data: not-json''" "[]"] split_nl_no_newline [OF d]
    by simp
  with a show "parseSSEStream parse (map Chunk cs) = ([], None)"
    by (simp add: parseSSEStream_lines openai_line_not_json)
next
  assume "parse ''not-json'' = None"
  then show "openai_line parse ''data: not-json'' = []" by (rule openai_line_not_json)
next
  show "openai_line parse ''data: [DONE]'' = []" by (rule openai_line_done)
next
  fix line
  assume "\<not> startsWith line ''data: ''"
  then show "openai_line parse line = []" by (rule openai_line_not_data)
next
  fix cs pre line post
  assume a: "concat cs = pre @ line @ NL # post \<and> (pre = [] \<or> last pre = NL) \<and>
      NL \<notin> set line \<and> \<not> startsWith line ''data: ''"
  then have b: "pre = [] \<or> last pre = NL" "NL \<notin> set line" by simp_all
  note d = butlast_split_nl_drop_line [OF b, of post]
  from a have c: "concat cs = pre @ line @ NL # post" and n: "\<not> startsWith line ''data: ''"
    by simp_all
  have 1: "parseSSEStream parse [Chunk (pre @ post)]
          = (concat (map (openai_line parse) (butlast (split_nl pre) @ butlast (split_nl post))), None)"
    using parseSSEStream_lines [of parse "[pre @ post]"] d(2) by simp
  have 2: "parseSSEStream parse (map Chunk cs)
          = (concat (map (openai_line parse)
               (butlast (split_nl pre) @ [line] @ butlast (split_nl post))), None)"
    unfolding parseSSEStream_lines c d(1) by (rule refl)
  show "parseSSEStream parse (map Chunk cs) = parseSSEStream parse [Chunk (pre @ post)]"
    unfolding 1 2 by (simp add: openai_line_not_data [OF n])
qed


text \<open>The three parts of the claim on streams cut into chunks inside a line.\<close>

theorem parseSSEStream_roundtrip_witness:
  "parseSSEStream example_parse
     (map Chunk [take 10 hi_line, drop 10 hi_line @ [NL] @ ''data: [DO'', ''NE]'' @ [NL]])
     = ([JString ''Hi''], None) \<and>
   parseSSEStream example_parse (map Chunk [''data: not'', ''-json'' @ [NL]]) = ([], None) \<and>
   parseSSEStream example_parse (map Chunk [''event: message'' @ [NL] @ hi_line @ [NL]])
     = parseSSEStream example_parse [Chunk (hi_line @ [NL])]"
proof -
  note t = parseSSEStream_roundtrip [of example_parse]
  have p1: "example_parse (drop 6 hi_line) = Some hi_json"
    by (simp add: example_parse_def)
  have p2: "example_parse ''not-json'' = None"
    by (simp add: example_parse_def hi_line_def gemini_line_def)
  have c1: "concat [take 10 hi_line, drop 10 hi_line @ [NL] @ ''data: [DO'', ''NE]'' @ [NL]]
              = hi_line @ [NL] @ ''data: [DONE]'' @ [NL]"
    by (simp add: hi_line_def)
  have c2: "concat [''data: not'', ''-json'' @ [NL]] = ''data: not-json'' @ [NL]"
    by simp
  have c3: "concat [''event: message'' @ [NL] @ hi_line @ [NL]]
              = [] @ ''event: message'' @ NL # (hi_line @ [NL])"
    by simp
  have n3: "NL \<notin> set ''event: message''" "\<not> startsWith ''event: message'' ''data: ''"
    by (simp_all add: NL_def startsWith_def)
  from t [THEN conjunct1, rule_format, of "[take 10 hi_line, drop 10 hi_line @ [NL] @ ''data: [DO'', ''NE]'' @ [NL]]"]
    c1 p1
  have 1: "parseSSEStream example_parse
     (map Chunk [take 10 hi_line, drop 10 hi_line @ [NL] @ ''data: [DO'', ''NE]'' @ [NL]])
     = ([JString ''Hi''], None)"
    by blast
  from t [THEN conjunct2, THEN conjunct1, rule_format, of "[''data: not'', ''-json'' @ [NL]]"] c2 p2
  have 2: "parseSSEStream example_parse (map Chunk [''data: not'', ''-json'' @ [NL]]) = ([], None)"
    by blast
  from t [THEN conjunct2, THEN conjunct2, THEN conjunct2, THEN conjunct2, THEN conjunct2,
      rule_format, of "[''event: message'' @ [NL] @ hi_line @ [NL]]" "[]" "''event: message''" "hi_line @ [NL]"]
    c3 n3
  have 3: "parseSSEStream example_parse (map Chunk [''event: message'' @ [NL] @ hi_line @ [NL]])
     = parseSSEStream example_parse [Chunk ([] @ hi_line @ [NL])]"
    by blast
  from 1 2 3 show ?thesis by simp
qed

section \<open>The partial line left at the end of a stream (C10)\<close>

lemma butlast_split_nl_tail:
  "NL \<notin> set t \<Longrightarrow> butlast (split_nl (x @ t)) = butlast (split_nl x)"
proof -
  assume n: "NL \<notin> set t"
  have "NL \<notin> set (last (split_nl x) @ t)" using n last_split_nl_no_newline [of x] by simp
  then have "split_nl (last (split_nl x) @ t) = [last (split_nl x) @ t]"
    by (rule split_nl_no_newline)
  then show ?thesis by (subst split_nl_append) simp
qed

text \<open>
  C10. In the OpenAI decoder and in the Google decoder, text that follows the last newline
  of the stream is discarded when the stream ends: a stream yields what it would yield
  without that text, whatever the parser would make of it, and a stream without any
  newline yields nothing. Both decoders yield exactly what the lines completed by a
  newline yield, in order.
\<close>

theorem unterminated_tail_discarded:
  "(concat cs' = concat cs @ t \<and> NL \<notin> set t
      \<longrightarrow> parseSSEStream parse (map Chunk cs') = parseSSEStream parse (map Chunk cs) \<and>
          parseGoogleSSEStream parse (map Chunk cs') = parseGoogleSSEStream parse (map Chunk cs)) \<and>
   (NL \<notin> set t
      \<longrightarrow> parseSSEStream parse [Chunk t] = ([], None) \<and>
          parseGoogleSSEStream parse [Chunk t] = ([], None)) \<and>
   parseSSEStream parse (map Chunk cs)
     = (concat (map (openai_line parse) (butlast (split_nl (concat cs)))), None) \<and>
   parseGoogleSSEStream parse (map Chunk cs)
     = (concat (map (google_line parse) (butlast (split_nl (concat cs)))), None)"
proof (intro conjI impI)
  assume a: "concat cs' = concat cs @ t \<and> NL \<notin> set t"
  then have "butlast (split_nl (concat cs')) = butlast (split_nl (concat cs))"
    using butlast_split_nl_tail [of t "concat cs"] by simp
  then show "parseSSEStream parse (map Chunk cs') = parseSSEStream parse (map Chunk cs)"
    and "parseGoogleSSEStream parse (map Chunk cs') = parseGoogleSSEStream parse (map Chunk cs)"
    by (simp_all add: parseSSEStream_lines parseGoogleSSEStream_lines)
next
  assume n: "NL \<notin> set t"
  from parseSSEStream_lines [of parse "[t]"] split_nl_no_newline [OF n]
  show "parseSSEStream parse [Chunk t] = ([], None)" by simp
  from parseGoogleSSEStream_lines [of parse "[t]"] split_nl_no_newline [OF n]
  show "parseGoogleSSEStream parse [Chunk t] = ([], None)" by simp
next
  show "parseSSEStream parse (map Chunk cs)
     = (concat (map (openai_line parse) (butlast (split_nl (concat cs)))), None)"
    by (rule parseSSEStream_lines)
  show "parseGoogleSSEStream parse (map Chunk cs)
     = (concat (map (google_line parse) (butlast (split_nl (concat cs)))), None)"
    by (rule parseGoogleSSEStream_lines)
qed

lemma gemini_line_no_newline: "NL \<notin> set gemini_line"
  by (simp add: gemini_line_def NL_def)

lemma google_line_hi:
  "parse (drop 6 gemini_line) = Some gemini_json \<Longrightarrow> google_line parse gemini_line = [JString ''Hi'']"
  by (simp add: google_line_def startsWith_def) (simp add: gemini_line_def gemini_json_def candidate_text_def)

text \<open>
  A terminated event line followed by the same line without its newline yields one
  chunk, and the unterminated line alone yields none, in both decoders.
\<close>

theorem unterminated_tail_discarded_witness:
  "parseSSEStream example_parse (map Chunk [hi_line @ [NL], take 20 hi_line, drop 20 hi_line])
     = ([JString ''Hi''], None) \<and>
   parseGoogleSSEStream example_parse (map Chunk [gemini_line @ [NL], take 20 gemini_line, drop 20 gemini_line])
     = ([JString ''Hi''], None) \<and>
   parseSSEStream example_parse [Chunk hi_line] = ([], None) \<and>
   parseGoogleSSEStream example_parse [Chunk gemini_line] = ([], None)"
proof -
  have p1: "example_parse (drop 6 hi_line) = Some hi_json"
    by (simp add: example_parse_def)
  have p2: "example_parse (drop 6 gemini_line) = Some gemini_json"
    by (simp add: example_parse_def hi_line_def gemini_line_def)
  have c1: "concat [hi_line @ [NL], take 20 hi_line, drop 20 hi_line] = concat [hi_line @ [NL]] @ hi_line"
    by simp
  have c2: "concat [gemini_line @ [NL], take 20 gemini_line, drop 20 gemini_line]
              = concat [gemini_line @ [NL]] @ gemini_line"
    by simp
  have s1: "split_nl (hi_line @ [NL]) = [hi_line, []]"
    using split_nl_append_newline [of hi_line "[]"] split_nl_no_newline [OF hi_line_no_newline]
    by simp
  have s2: "split_nl (gemini_line @ [NL]) = [gemini_line, []]"
    using split_nl_append_newline [of gemini_line "[]"] split_nl_no_newline [OF gemini_line_no_newline]
    by simp
  note t1 = unterminated_tail_discarded [of "[hi_line @ [NL], take 20 hi_line, drop 20 hi_line]"
      "[hi_line @ [NL]]" hi_line example_parse]
  note t2 = unterminated_tail_discarded [of "[gemini_line @ [NL], take 20 gemini_line, drop 20 gemini_line]"
      "[gemini_line @ [NL]]" gemini_line example_parse]
  have 1: "parseSSEStream example_parse (map Chunk [hi_line @ [NL], take 20 hi_line, drop 20 hi_line])
     = ([JString ''Hi''], None)"
    using t1 [THEN conjunct1] t1 [THEN conjunct2, THEN conjunct2, THEN conjunct1] c1
      hi_line_no_newline s1 openai_line_hi [of example_parse] p1
    by simp
  have 2: "parseGoogleSSEStream example_parse
             (map Chunk [gemini_line @ [NL], take 20 gemini_line, drop 20 gemini_line])
     = ([JString ''Hi''], None)"
    using t2 [THEN conjunct1] t2 [THEN conjunct2, THEN conjunct2, THEN conjunct2] c2
      gemini_line_no_newline s2 google_line_hi [of example_parse] p2
    by simp
  have 3: "parseSSEStream example_parse [Chunk hi_line] = ([], None)"
    using t1 [THEN conjunct2, THEN conjunct1] hi_line_no_newline by simp
  have 4: "parseGoogleSSEStream example_parse [Chunk gemini_line] = ([], None)"
    using t2 [THEN conjunct2, THEN conjunct1] gemini_line_no_newline by simp
  from 1 2 3 4 show ?thesis by simp
qed

section \<open>File names of saved images (C8)\<close>

text \<open>
  C8 says that several results of one image request are saved under distinct suffixed
  names. The OpenRouter adapter does not do so: its loops hand the requested name itself
  to \<open>saveMedia\<close> for every image of the response. For a response with two inline images
  and the output path \<open>out.png\<close> both results are written to the same path, the second
  over the first, whatever \<open>path.join\<close> does.
\<close>

theorem openrouter_generateImage_same_filename:
  "openrouter_generateImage_results join timestamp base64Match urlMatch raw (Some ''out.png'')
     two_images_message []
   = (Inr [\<lparr>url = None, base64 = Some ''AAAA'', filePath = Some (join ''.'' ''out.png''),
            revisedPrompt = None\<rparr>,
           \<lparr>url = None, base64 = Some ''BBBB'', filePath = Some (join ''.'' ''out.png''),
            revisedPrompt = None\<rparr>],
      [(join ''.'' ''out.png'', Some ''AAAA''), (join ''.'' ''out.png'', Some ''BBBB'')])"
  by (simp add: openrouter_generateImage_results_def two_images_message_def openrouter_push_def
      saveMedia_def startsWith_def after_first_comma_def Let_def)

text \<open>
  The OpenAI and the Google adapter do suffix the name, by a replacement at the
  extension. For a path without an extension the replacement finds nothing and the results
  again share one name: two writes are issued to the one path.
\<close>

lemma openai_generateImage_no_extension:
  "openai_generateImage_results join timestamp (Some ''out'')
     [\<lparr>b64_json = ''AAAA'', revised_prompt = None\<rparr>, \<lparr>b64_json = ''BBBB'', revised_prompt = None\<rparr>]
   = ([\<lparr>url = None, base64 = Some ''AAAA'', filePath = Some (join ''.'' ''out''),
            revisedPrompt = None\<rparr>,
       \<lparr>url = None, base64 = Some ''BBBB'', filePath = Some (join ''.'' ''out''),
            revisedPrompt = None\<rparr>],
      [(join ''.'' ''out'', Some ''AAAA''), (join ''.'' ''out'', Some ''BBBB'')])"
  by (simp add: openai_generateImage_results_def save_indexed_def saveMedia_def suffix_index_def Let_def)

text \<open>With an extension the two results get the names \<open>out_0.png\<close> and \<open>out_1.png\<close>.\<close>

lemma string_of_nat_small: "string_of_nat 0 = ''0''" "string_of_nat (Suc 0) = ''1''"
  by code_simp+

lemma openai_generateImage_with_extension:
  "openai_generateImage_results join timestamp (Some ''out.png'')
     [\<lparr>b64_json = ''AAAA'', revised_prompt = None\<rparr>, \<lparr>b64_json = ''BBBB'', revised_prompt = None\<rparr>]
   = ([\<lparr>url = None, base64 = Some ''AAAA'', filePath = Some (join ''.'' ''out_0.png''),
            revisedPrompt = None\<rparr>,
       \<lparr>url = None, base64 = Some ''BBBB'', filePath = Some (join ''.'' ''out_1.png''),
            revisedPrompt = None\<rparr>],
      [(join ''.'' ''out_0.png'', Some ''AAAA''), (join ''.'' ''out_1.png'', Some ''BBBB'')])"
  by (simp add: openai_generateImage_results_def save_indexed_def saveMedia_def suffix_index_def Let_def
      string_of_nat_small)


text \<open>
  In general: for a path with an extension the suffixed names are \<open>stem_i.ext\<close> and differ
  for different indices; a single result keeps the requested name.
\<close>

lemma digit_char_inj: "a < 10 \<Longrightarrow> b < 10 \<Longrightarrow> digit_char a = digit_char b \<Longrightarrow> a = b"
  by (simp add: digit_char_def char_of_eq_iff take_bit_nat_eq_self)

lemma string_of_nat_not_Nil: "string_of_nat n \<noteq> []"
  by (subst string_of_nat.simps) simp

lemma string_of_nat_inj: "string_of_nat n = string_of_nat m \<Longrightarrow> n = m"
proof (induction n arbitrary: m rule: string_of_nat.induct)
  case (1 n)
  show ?case
  proof (cases "n < 10")
    case True
    then have n: "string_of_nat n = [digit_char n]" by (subst string_of_nat.simps) simp
    show ?thesis
    proof (cases "m < 10")
      case m: True
      then have "string_of_nat m = [digit_char m]" by (subst string_of_nat.simps) simp
      with n "1.prems" True m show ?thesis by (simp add: digit_char_inj)
    next
      case False
      then have "string_of_nat m = string_of_nat (m div 10) @ [digit_char (m mod 10)]"
        by (subst string_of_nat.simps) simp
      with n "1.prems" string_of_nat_not_Nil [of "m div 10"] show ?thesis by simp
    qed
  next
    case False
    then have n: "string_of_nat n = string_of_nat (n div 10) @ [digit_char (n mod 10)]"
      by (subst string_of_nat.simps) simp
    show ?thesis
    proof (cases "m < 10")
      case True
      then have "string_of_nat m = [digit_char m]" by (subst string_of_nat.simps) simp
      with n "1.prems" string_of_nat_not_Nil [of "n div 10"] show ?thesis by simp
    next
      case m: False
      then have "string_of_nat m = string_of_nat (m div 10) @ [digit_char (m mod 10)]"
        by (subst string_of_nat.simps) simp
      with n "1.prems" have e: "string_of_nat (n div 10) = string_of_nat (m div 10)"
        "digit_char (n mod 10) = digit_char (m mod 10)" by simp_all
      from "1.IH" [OF False e(1)] have d: "n div 10 = m div 10" .
      from e(2) have "n mod 10 = m mod 10" by (simp add: digit_char_inj)
      with d show ?thesis by (metis div_mult_mod_eq)
    qed
  qed
qed

lemma suffix_index_with_extension:
  "ext \<noteq> [] \<Longrightarrow> CHR ''.'' \<notin> set ext \<Longrightarrow>
   suffix_index (stem @ CHR ''.'' # ext) i = stem @ ''_'' @ string_of_nat i @ CHR ''.'' # ext"
proof -
  assume e: "ext \<noteq> []" "CHR ''.'' \<notin> set ext"
  have p: "\<And>x. x \<in> set (rev ext) \<Longrightarrow> x \<noteq> CHR ''.''" using e(2) by auto
  have r: "rev (stem @ CHR ''.'' # ext) = rev ext @ CHR ''.'' # rev stem" by simp
  have t: "takeWhile (\<lambda>c. c \<noteq> CHR ''.'') (rev ext @ CHR ''.'' # rev stem) = rev ext"
    using takeWhile_append2 [of "rev ext" "\<lambda>c. c \<noteq> CHR ''.''" "CHR ''.'' # rev stem", OF p]
    by simp
  have d: "dropWhile (\<lambda>c. c \<noteq> CHR ''.'') (rev ext @ CHR ''.'' # rev stem) = CHR ''.'' # rev stem"
    using dropWhile_append2 [of "rev ext" "\<lambda>c. c \<noteq> CHR ''.''" "CHR ''.'' # rev stem", OF p]
    by simp
  show ?thesis unfolding suffix_index_def r t d using e(1) by (simp add: Let_def)
qed

lemma suffix_index_distinct:
  "ext \<noteq> [] \<Longrightarrow> CHR ''.'' \<notin> set ext \<Longrightarrow> i \<noteq> j \<Longrightarrow>
   suffix_index (stem @ CHR ''.'' # ext) i \<noteq> suffix_index (stem @ CHR ''.'' # ext) j"
  by (auto simp: suffix_index_with_extension dest: string_of_nat_inj)

lemma suffix_index_without_extension:
  "CHR ''.'' \<notin> set path \<Longrightarrow> suffix_index path i = path"
  by (simp add: suffix_index_def Let_def dropWhile_eq_Nil_conv)

lemma save_indexed_name:
  "path \<noteq> [] \<Longrightarrow>
   save_indexed join timestamp (Some path) n b64 index =
     (Some (join ''.'' (if n > 1 then suffix_index path index else path)),
      [(join ''.'' (if n > 1 then suffix_index path index else path), Some b64)])"
  by (cases path) (simp_all add: save_indexed_def saveMedia_def Let_def)

text \<open>The paths of the results of the OpenAI and the Google adapter, in the order of the results.\<close>

lemma openai_image_results_paths:
  "path \<noteq> [] \<Longrightarrow>
   map filePath (fst (openai_image_results join timestamp (Some path) n items index))
     = map (\<lambda>i. Some (join ''.'' (if n > 1 then suffix_index path i else path)))
         [index..<index + length items]"
proof (induction items arbitrary: index)
  case Nil
  show ?case by simp
next
  case (Cons item items)
  have up: "[index..<index + length (item # items)] = index # [Suc index..<Suc index + length items]"
    using upt_conv_Cons [of index "Suc index + length items"] by simp
  show ?case unfolding up
    using Cons.IH [OF Cons.prems] by (simp add: Let_def save_indexed_name [OF Cons.prems])
qed

lemma google_image_results_paths:
  "path \<noteq> [] \<Longrightarrow>
   map filePath (fst (google_image_results join timestamp (Some path) n items index))
     = map (\<lambda>i. Some (join ''.'' (if n > 1 then suffix_index path i else path)))
         [index..<index + length items]"
proof (induction items arbitrary: index)
  case Nil
  show ?case by simp
next
  case (Cons item items)
  have up: "[index..<index + length (item # items)] = index # [Suc index..<Suc index + length items]"
    using upt_conv_Cons [of index "Suc index + length items"] by simp
  show ?case unfolding up
    using Cons.IH [OF Cons.prems] by (simp add: Let_def save_indexed_name [OF Cons.prems])
qed

lemma generateImage_single_result:
  "path \<noteq> [] \<Longrightarrow>
   map filePath (fst (openai_generateImage_results join timestamp (Some path) [item]))
     = [Some (join ''.'' path)] \<and>
   map filePath (fst (google_generateImage_results join timestamp (Some path) [prediction]))
     = [Some (join ''.'' path)]"
  using openai_image_results_paths [of path join timestamp 1 "[item]" 0]
    google_image_results_paths [of path join timestamp 1 "[prediction]" 0]
  by (simp add: openai_generateImage_results_def google_generateImage_results_def)

end
